theory Spec2Isabelle
  imports Main "HOL-Library.AList"
begin

section \<open>Data model\<close>

text \<open>
  The records follow the rows that \<^verbatim>\<open>scheduler.js\<close> reads through Prisma. A nullable
  column is an \<open>option\<close>. Strings are lists of 8-bit characters, each read as one code
  unit below 256; identifiers are strings, as in the routes. The time zone of the
  config is destructured with a default, which JavaScript applies to \<^verbatim>\<open>undefined\<close> only,
  so that field tells \<^verbatim>\<open>undefined\<close>, \<^verbatim>\<open>null\<close> and a string apart.
\<close>

datatype js_string = Undefined | Null | Str string

record site =
  site_id :: string
  site_name :: string
  scheduleCron :: "string option"
  site_timezone :: "string option"
  pinned :: bool
  excludeFromBatch :: bool
  categoryId :: "string option"

record category =
  cat_id :: string
  cat_name :: string
  cat_scheduleCron :: "string option"
  cat_timezone :: "string option"

record schedule_config =
  cfg_id :: string
  enabled :: bool
  hour :: int
  minute :: int
  interval :: int
  overrideIndividual :: bool
  cfg_timezone :: js_string
  lastRun :: "nat option"

record store =
  siteRows :: "site list"
  categoryRows :: "category list"
  configRows :: "schedule_config list"

text \<open>What \<^verbatim>\<open>checkSite\<close> resolves to, and the entries the global firing collects.\<close>

record checkin =
  checkInSuccess :: bool
  checkInMessage :: string

record check_result =
  siteName :: string
  hasChanges :: bool
  diff :: "string option"
  checkInResult :: "checkin option"
  checkInChanged :: bool

record changed_site =
  cs_siteName :: string
  cs_diff :: "string option"
  cs_checkInResult :: "checkin option"

record failed_site =
  fs_siteName :: string
  fs_error :: string

text \<open>
  Calls that leave the scheduler, in program order: \<open>Check s skip\<close> is
  \<^verbatim>\<open>checkSite(s, fastify, {skipNotification: skip, isManual: false})\<close>, \<open>Sleep ms\<close> is the
  awaited \<^verbatim>\<open>setTimeout\<close>, \<open>SendAggregated\<close> is \<^verbatim>\<open>sendAggregatedNotification\<close>.
  The log calls of the \<^verbatim>\<open>catch\<close> blocks are kept in a list of their own; the
  informational log calls are left out.
\<close>

datatype effect =
  Check site bool
| Sleep int
| SendAggregated "changed_site list" "failed_site list"

datatype log_error =
  SiteCheckFailed string string
| NotificationFailed string
| GlobalTaskError string
| CategorySiteCheckFailed string string string
| CategoryTaskError string string string
| IndividualCheckFailed string string string

datatype store_op = ReadConfig | ReadSites | ReadSite | ReadCategory | WriteConfig

text \<open>
  The collaborators of the scheduler that are not part of it: the cron library's check
  of an expression, the store's availability per kind of operation (\<open>Some msg\<close>: the
  call throws), the site checker (\<open>Inl msg\<close>: it throws), the notifier (\<open>Some msg\<close>:
  it throws) and the clock.
\<close>

record env =
  cronValidate :: "string \<Rightarrow> bool"
  storeFailure :: "store_op \<Rightarrow> string option"
  checkSite :: "site \<Rightarrow> string + check_result"
  sendAggregatedNotification :: "changed_site list \<Rightarrow> failed_site list \<Rightarrow> string option"
  now :: nat

section \<open>Strings\<close>

text \<open>
  \<^verbatim>\<open>String.prototype.trim\<close> removes white space and line terminators from both ends;
  below 256 these are TAB, LF, VT, FF, CR, SP and NBSP.
\<close>

definition isWhiteSpace :: "char \<Rightarrow> bool" where
  "isWhiteSpace c = (of_char c \<in> set [9, 10, 11, 12, 13, 32, 160 :: nat])"

definition trim :: "string \<Rightarrow> string" where
  "trim s = rev (dropWhile isWhiteSpace (rev (dropWhile isWhiteSpace s)))"

text \<open>
  \<^verbatim>\<open>!s.scheduleCron || !s.scheduleCron.trim()\<close>: true for \<^verbatim>\<open>null\<close>, for the empty string
  and for a string of white space only.
\<close>

definition noOwnSchedule :: "string option \<Rightarrow> bool" where
  "noOwnSchedule c =
     (case c of None \<Rightarrow> True | Some e \<Rightarrow> e = [] \<or> trim e = [])"

section \<open>Store reads\<close>

definition findFirstConfig :: "store \<Rightarrow> schedule_config option" where
  "findFirstConfig db = (case configRows db of [] \<Rightarrow> None | c # _ \<Rightarrow> Some c)"

definition findUniqueConfig :: "store \<Rightarrow> string \<Rightarrow> schedule_config option" where
  "findUniqueConfig db i = find (\<lambda>c. cfg_id c = i) (configRows db)"

text \<open>\<^verbatim>\<open>prisma.category.findUnique({where: {id}, include: {sites: true}})\<close>\<close>

definition findUniqueCategory :: "store \<Rightarrow> string \<Rightarrow> (category \<times> site list) option" where
  "findUniqueCategory db i =
     (case find (\<lambda>c. cat_id c = i) (categoryRows db) of
        None \<Rightarrow> None
      | Some c \<Rightarrow> Some (c, filter (\<lambda>s. categoryId s = Some i) (siteRows db)))"

text \<open>
  \<^verbatim>\<open>prisma.scheduleConfig.update({where: {id}, data: {lastRun: new Date()}})\<close>: throws
  when the store is unavailable or no row has the id.
\<close>

definition updateLastRun :: "env \<Rightarrow> string \<Rightarrow> store \<Rightarrow> string + store" where
  "updateLastRun E i db =
     (case storeFailure E WriteConfig of
        Some msg \<Rightarrow> Inl msg
      | None \<Rightarrow>
          (case findUniqueConfig db i of
             None \<Rightarrow> Inl ''Record to update not found.''
           | Some _ \<Rightarrow>
               Inr (db\<lparr>configRows :=
                      map (\<lambda>c. if cfg_id c = i then c\<lparr>lastRun := Some (now E)\<rparr> else c)
                        (configRows db)\<rparr>)))"

section \<open>The fired callbacks\<close>

record batch =
  effects :: "effect list"
  logged :: "log_error list"
  sitesWithChanges :: "changed_site list"
  failedSites :: "failed_site list"

definition emptyBatch :: batch where
  "emptyBatch = \<lparr>effects = [], logged = [], sitesWithChanges = [], failedSites = []\<rparr>"

text \<open>
  The loop of the global firing (\<^verbatim>\<open>for (let i = 0; i < sites.length; i++)\<close>), by recursion
  on the sites still to check: \<^verbatim>\<open>i < sites.length - 1\<close> holds exactly when sites remain
  after the current one. \<open>d\<close> is the delay in milliseconds.
\<close>

fun globalLoop :: "env \<Rightarrow> int \<Rightarrow> site list \<Rightarrow> batch \<Rightarrow> batch" where
  "globalLoop E d [] b = b"
| "globalLoop E d (s # rest) b =
     (let b0 = b\<lparr>effects := effects b @ [Check s True]\<rparr>;
          b1 = (case checkSite E s of
                  Inr result \<Rightarrow>
                    (if hasChanges result \<or> checkInResult result \<noteq> None
                     then b0\<lparr>sitesWithChanges := sitesWithChanges b0 @
                            [\<lparr>cs_siteName = siteName result,
                              cs_diff = (if hasChanges result then diff result else None),
                              cs_checkInResult = checkInResult result\<rparr>]\<rparr>
                     else b0)
                | Inl msg \<Rightarrow>
                    b0\<lparr>logged := logged b0 @ [SiteCheckFailed (site_id s) msg],
                       failedSites := failedSites b0 @
                         [\<lparr>fs_siteName = site_name s, fs_error = msg\<rparr>]\<rparr>);
          b2 = (if rest \<noteq> [] then b1\<lparr>effects := effects b1 @ [Sleep d]\<rparr> else b1)
      in globalLoop E d rest b2)"

text \<open>The loop of a category firing: a fixed delay of 5000 ms, failures only logged.\<close>

fun categoryLoop :: "env \<Rightarrow> site list \<Rightarrow> batch \<Rightarrow> batch" where
  "categoryLoop E [] b = b"
| "categoryLoop E (s # rest) b =
     (let b0 = b\<lparr>effects := effects b @ [Check s False]\<rparr>;
          b1 = (case checkSite E s of
                  Inr result \<Rightarrow> b0
                | Inl msg \<Rightarrow>
                    b0\<lparr>logged := logged b0 @
                         [CategorySiteCheckFailed (site_id s) (site_name s) msg]\<rparr>);
          b2 = (if rest \<noteq> [] then b1\<lparr>effects := effects b1 @ [Sleep 5000]\<rparr> else b1)
      in categoryLoop E rest b2)"

record fired =
  fr_store :: store
  fr_effects :: "effect list"
  fr_logged :: "log_error list"

text \<open>
  The callback installed by \<^verbatim>\<open>scheduleGlobalTask(config, fastify)\<close>. \<open>config\<close> is the
  argument captured when the job was installed, \<open>db\<close> the store at fire time. An
  exception outside the loop reaches the outer \<^verbatim>\<open>catch\<close>, which logs it.
\<close>

definition globalFire :: "env \<Rightarrow> schedule_config \<Rightarrow> store \<Rightarrow> fired" where
  "globalFire E config db =
     (case storeFailure E ReadConfig of
        Some msg \<Rightarrow> \<lparr>fr_store = db, fr_effects = [], fr_logged = [GlobalTaskError msg]\<rparr>
      | None \<Rightarrow>
     (case findUniqueConfig db (cfg_id config) of
        None \<Rightarrow> \<lparr>fr_store = db, fr_effects = [], fr_logged = []\<rparr>
      | Some latestConfig \<Rightarrow>
     if \<not> enabled latestConfig
     then \<lparr>fr_store = db, fr_effects = [], fr_logged = []\<rparr>
     else
     (case storeFailure E ReadSites of
        Some msg \<Rightarrow> \<lparr>fr_store = db, fr_effects = [], fr_logged = [GlobalTaskError msg]\<rparr>
      | None \<Rightarrow>
     (let allSites = siteRows db;
          sites = (if overrideIndividual latestConfig then allSites
                   else filter (\<lambda>s. noOwnSchedule (scheduleCron s)) allSites)
      in
      if sites = [] then
        (case updateLastRun E (cfg_id latestConfig) db of
           Inl msg \<Rightarrow> \<lparr>fr_store = db, fr_effects = [], fr_logged = [GlobalTaskError msg]\<rparr>
         | Inr db' \<Rightarrow> \<lparr>fr_store = db', fr_effects = [], fr_logged = []\<rparr>)
      else
        (let b = globalLoop E (interval config * 1000) sites emptyBatch;
             b' = (if sitesWithChanges b \<noteq> [] \<or> failedSites b \<noteq> [] then
                     (let sent = b\<lparr>effects := effects b @
                                   [SendAggregated (sitesWithChanges b) (failedSites b)]\<rparr>
                      in case sendAggregatedNotification E (sitesWithChanges b) (failedSites b) of
                           None \<Rightarrow> sent
                         | Some msg \<Rightarrow> sent\<lparr>logged := logged sent @ [NotificationFailed msg]\<rparr>)
                   else b)
         in case updateLastRun E (cfg_id latestConfig) db of
              Inl msg \<Rightarrow> \<lparr>fr_store = db, fr_effects = effects b',
                           fr_logged = logged b' @ [GlobalTaskError msg]\<rparr>
            | Inr db' \<Rightarrow> \<lparr>fr_store = db', fr_effects = effects b',
                           fr_logged = logged b'\<rparr>)))))"

text \<open>
  The callback installed by \<^verbatim>\<open>scheduleCategory(category, fastify)\<close>; \<open>category\<close> is the
  captured argument.
\<close>

definition categoryFire :: "env \<Rightarrow> category \<Rightarrow> store \<Rightarrow> fired" where
  "categoryFire E category db =
     (case storeFailure E ReadCategory of
        Some msg \<Rightarrow>
          \<lparr>fr_store = db, fr_effects = [],
           fr_logged = [CategoryTaskError (cat_id category) (cat_name category) msg]\<rparr>
      | None \<Rightarrow>
     (case findUniqueCategory db (cat_id category) of
        None \<Rightarrow> \<lparr>fr_store = db, fr_effects = [], fr_logged = []\<rparr>
      | Some (latestCategory, members) \<Rightarrow>
     (let sitesToCheck = filter (\<lambda>site. \<not> pinned site) members
      in
      if sitesToCheck = [] then \<lparr>fr_store = db, fr_effects = [], fr_logged = []\<rparr>
      else
        (let b = categoryLoop E sitesToCheck emptyBatch
         in \<lparr>fr_store = db, fr_effects = effects b, fr_logged = logged b\<rparr>))))"

text \<open>
  The callback installed by \<^verbatim>\<open>scheduleSite(site, fastify)\<close>; \<open>site\<close> is the captured
  argument, re-read by id before the check.
\<close>

definition siteFire :: "env \<Rightarrow> site \<Rightarrow> store \<Rightarrow> fired" where
  "siteFire E site db =
     (case storeFailure E ReadSite of
        Some msg \<Rightarrow>
          \<lparr>fr_store = db, fr_effects = [],
           fr_logged = [IndividualCheckFailed (site_id site) (site_name site) msg]\<rparr>
      | None \<Rightarrow>
     (case find (\<lambda>s. site_id s = site_id site) (siteRows db) of
        None \<Rightarrow> \<lparr>fr_store = db, fr_effects = [], fr_logged = []\<rparr>
      | Some latestSite \<Rightarrow>
          (case checkSite E latestSite of
             Inr result \<Rightarrow>
               \<lparr>fr_store = db, fr_effects = [Check latestSite False], fr_logged = []\<rparr>
           | Inl msg \<Rightarrow>
               \<lparr>fr_store = db, fr_effects = [Check latestSite False],
                fr_logged = [IndividualCheckFailed (site_id site) (site_name site) msg]\<rparr>)))"

section \<open>Timers and the job registries\<close>

text \<open>
  A job handle of the cron library is an index into the pool of all timers created so
  far. A timer keeps its expression, the time zone option it was given, the callback
  with the argument it captured, and whether it is running. \<open>jobs\<close> is the \<^verbatim>\<open>Map\<close> from site id to handle
  (in insertion order), \<open>globalScheduleJob\<close> the module variable.
\<close>

datatype callback = SiteCheck site | GlobalCheck schedule_config

record timer =
  t_expr :: string
  t_timezone :: js_string
  t_callback :: callback
  running :: bool

record scheduler =
  timers :: "timer list"
  jobs :: "(string \<times> nat) list"
  globalScheduleJob :: "nat option"

datatype error = StoreUnavailable string | InvalidCron string

definition fire :: "env \<Rightarrow> callback \<Rightarrow> store \<Rightarrow> fired" where
  "fire E cb db =
     (case cb of SiteCheck site \<Rightarrow> siteFire E site db
               | GlobalCheck config \<Rightarrow> globalFire E config db)"

definition stopTimer :: "nat \<Rightarrow> timer list \<Rightarrow> timer list" where
  "stopTimer h ts = (if h < length ts then ts[h := (ts ! h)\<lparr>running := False\<rparr>] else ts)"

definition startTimer :: "nat \<Rightarrow> timer list \<Rightarrow> timer list" where
  "startTimer h ts = (if h < length ts then ts[h := (ts ! h)\<lparr>running := True\<rparr>] else ts)"

text \<open>
  \<^verbatim>\<open>cron.schedule(expr, fn, {timezone, scheduled: true})\<close>: throws on an expression the
  library rejects, otherwise creates a started timer and returns its handle.
\<close>

definition cronSchedule ::
  "env \<Rightarrow> string \<Rightarrow> js_string \<Rightarrow> callback \<Rightarrow> timer list \<Rightarrow> error + (nat \<times> timer list)" where
  "cronSchedule E e tz cb ts =
     (if cronValidate E e
      then Inr (length ts, ts @ [\<lparr>t_expr = e, t_timezone = tz, t_callback = cb, running = True\<rparr>])
      else Inl (InvalidCron e))"

text \<open>\<^verbatim>\<open>x || d\<close> on a nullable string: \<^verbatim>\<open>null\<close> and the empty string give \<open>d\<close>.\<close>

definition orDefault :: "string option \<Rightarrow> string \<Rightarrow> string" where
  "orDefault x d = (case x of None \<Rightarrow> d | Some z \<Rightarrow> if z = [] then d else z)"

text \<open>Decimal rendering of an integer inside a template literal.\<close>

fun showNat :: "nat \<Rightarrow> string" where
  "showNat n =
     (if n < 10 then [''0123456789'' ! n]
      else showNat (n div 10) @ [''0123456789'' ! (n mod 10)])"

definition showInt :: "int \<Rightarrow> string" where
  "showInt i = (if i < 0 then ''-'' @ showNat (nat (- i)) else showNat (nat i))"

text \<open>
  \<^verbatim>\<open>scheduleSite\<close> has one suspension point, \<^verbatim>\<open>await prisma.scheduleConfig.findFirst()\<close>.
  \<open>scheduleSitePre\<close> is what runs when the function is called, up to that point: the
  job held for the site id is stopped and deleted. \<open>scheduleSitePost\<close> is what runs
  when the read has answered with the store \<open>db\<close>; it gives the scheduler state when
  the promise settles and the error it rejects with, if any. Between the two, other
  code of the process may run.
\<close>

definition scheduleSitePre :: "site \<Rightarrow> scheduler \<Rightarrow> scheduler" where
  "scheduleSitePre site st =
     (let key = site_id site
      in case map_of (jobs st) key of
           Some h \<Rightarrow> st\<lparr>timers := stopTimer h (timers st),
                        jobs := AList.delete key (jobs st)\<rparr>
         | None \<Rightarrow> st)"

definition scheduleSitePost ::
  "env \<Rightarrow> store \<Rightarrow> site \<Rightarrow> scheduler \<Rightarrow> scheduler \<times> error option" where
  "scheduleSitePost E db site st1 =
     (let key = site_id site
      in
      case storeFailure E ReadConfig of
        Some msg \<Rightarrow> (st1, Some (StoreUnavailable msg))
      | None \<Rightarrow>
      (let globalConfig = findFirstConfig db in
       if (case globalConfig of None \<Rightarrow> False
                              | Some g \<Rightarrow> enabled g \<and> overrideIndividual g)
       then (st1, None)
       else
       (case scheduleCron site of
          None \<Rightarrow> (st1, None)
        | Some cronExp \<Rightarrow>
            if cronExp = [] \<or> trim cronExp = [] then (st1, None)
            else
            (case cronSchedule E cronExp (Str (orDefault (site_timezone site) ''UTC''))
                    (SiteCheck site) (timers st1) of
               Inl e \<Rightarrow> (st1, Some e)
             | Inr (job, ts) \<Rightarrow>
                 (st1\<lparr>timers := startTimer job ts,
                      jobs := AList.update key job (jobs st1)\<rparr>, None)))))"

text \<open>A call of \<^verbatim>\<open>scheduleSite\<close> that nothing interleaves with.\<close>

definition scheduleSite :: "env \<Rightarrow> store \<Rightarrow> site \<Rightarrow> scheduler \<Rightarrow> scheduler \<times> error option" where
  "scheduleSite E db site st = scheduleSitePost E db site (scheduleSitePre site st)"

text \<open>
  \<^verbatim>\<open>onSiteUpdated\<close> calls \<^verbatim>\<open>scheduleSite\<close> and neither awaits nor returns its promise: the
  caller gets a normal return whatever the promise does.
\<close>

definition onSiteUpdated :: "env \<Rightarrow> store \<Rightarrow> site \<Rightarrow> scheduler \<Rightarrow> scheduler \<times> error option" where
  "onSiteUpdated E db site st =
     (case scheduleSite E db site st of (st', rejection) \<Rightarrow> (st', None))"

text \<open>\<^verbatim>\<open>for (const site of allSites) { await scheduleSite(site, fastify); }\<close>\<close>

fun scheduleEach :: "env \<Rightarrow> store \<Rightarrow> site list \<Rightarrow> scheduler \<Rightarrow> scheduler \<times> error option" where
  "scheduleEach E db [] st = (st, None)"
| "scheduleEach E db (s # rest) st =
     (case scheduleSite E db s st of
        (st', Some e) \<Rightarrow> (st', Some e)
      | (st', None) \<Rightarrow> scheduleEach E db rest st')"

text \<open>
  \<^verbatim>\<open>const allSites = await prisma.site.findMany();\<close> followed by that loop, as it stands
  in both branches of \<^verbatim>\<open>scheduleGlobalTask\<close>.
\<close>

definition rescheduleIndividual :: "env \<Rightarrow> store \<Rightarrow> scheduler \<Rightarrow> scheduler \<times> error option" where
  "rescheduleIndividual E db st =
     (case storeFailure E ReadSites of
        Some msg \<Rightarrow> (st, Some (StoreUnavailable msg))
      | None \<Rightarrow> scheduleEach E db (siteRows db) st)"

text \<open>
  \<^verbatim>\<open>stopAllIndividualJobs\<close>: every entry of the map is visited once, its job stopped and
  its key deleted; the size before the loop is returned (the list holds one entry
  per key).
\<close>

fun stopEntries :: "(string \<times> nat) list \<Rightarrow> scheduler \<Rightarrow> scheduler" where
  "stopEntries [] st = st"
| "stopEntries ((key, job) # rest) st =
     stopEntries rest
       (st\<lparr>timers := stopTimer job (timers st), jobs := AList.delete key (jobs st)\<rparr>)"

definition stopAllIndividualJobs :: "scheduler \<Rightarrow> nat \<times> scheduler" where
  "stopAllIndividualJobs st = (let count = length (jobs st) in (count, stopEntries (jobs st) st))"

definition dailyCron :: "schedule_config \<Rightarrow> string" where
  "dailyCron config = showInt (minute config) @ '' '' @ showInt (hour config) @ '' * * *''"

text \<open>
  \<^verbatim>\<open>scheduleGlobalTask(config, fastify)\<close>; \<open>None\<close> is a \<^verbatim>\<open>null\<close> config.
  \<open>scheduleGlobalTaskPre\<close> is what runs when the function is called: the global job is
  stopped and the variable cleared. Unless the config is enabled with
  \<open>overrideIndividual\<close>, the function then suspends at
  \<^verbatim>\<open>await prisma.site.findMany()\<close>, and \<open>scheduleGlobalTaskPost\<close> is the rest, which
  ends with the plain assignment to the variable. The suspensions of the calls of
  \<^verbatim>\<open>scheduleSite\<close> inside the loop are not split further.
\<close>

definition scheduleGlobalTaskPre :: "scheduler \<Rightarrow> scheduler" where
  "scheduleGlobalTaskPre st =
     (case globalScheduleJob st of
        Some h \<Rightarrow> st\<lparr>timers := stopTimer h (timers st), globalScheduleJob := None\<rparr>
      | None \<Rightarrow> st)"

definition scheduleGlobalTaskPost ::
  "env \<Rightarrow> store \<Rightarrow> schedule_config option \<Rightarrow> scheduler \<Rightarrow> scheduler \<times> error option" where
  "scheduleGlobalTaskPost E db config st1 =
     (case config of
        None \<Rightarrow> rescheduleIndividual E db st1
      | Some c \<Rightarrow>
          if \<not> enabled c then rescheduleIndividual E db st1
          else
          (case (if overrideIndividual c then (snd (stopAllIndividualJobs st1), None)
                 else rescheduleIndividual E db st1) of
             (st2, Some e) \<Rightarrow> (st2, Some e)
           | (st2, None) \<Rightarrow>
               (let cronExp = dailyCron c;
                    timezone = (case cfg_timezone c of
                                  Undefined \<Rightarrow> Str ''Asia/Shanghai''
                                | Null \<Rightarrow> Null
                                | Str z \<Rightarrow> Str z)
                in case cronSchedule E cronExp timezone (GlobalCheck c) (timers st2) of
                     Inl e \<Rightarrow> (st2, Some e)
                   | Inr (job, ts) \<Rightarrow>
                       (st2\<lparr>timers := startTimer job ts, globalScheduleJob := Some job\<rparr>,
                        None))))"

text \<open>A call of \<^verbatim>\<open>scheduleGlobalTask\<close> that nothing interleaves with.\<close>

definition scheduleGlobalTask ::
  "env \<Rightarrow> store \<Rightarrow> schedule_config option \<Rightarrow> scheduler \<Rightarrow> scheduler \<times> error option" where
  "scheduleGlobalTask E db config st =
     scheduleGlobalTaskPost E db config (scheduleGlobalTaskPre st)"

text \<open>
  Overlapping calls: a run is a list of the segments above in the order in which the
  process executes them. A rejected promise is not observed by the next segment.
\<close>

datatype segment =
  SitePre site
| SitePost site
| GlobalPre
| GlobalPost "schedule_config option"

fun runSegments :: "env \<Rightarrow> store \<Rightarrow> segment list \<Rightarrow> scheduler \<Rightarrow> scheduler" where
  "runSegments E db [] st = st"
| "runSegments E db (SitePre site # rest) st =
     runSegments E db rest (scheduleSitePre site st)"
| "runSegments E db (SitePost site # rest) st =
     runSegments E db rest (fst (scheduleSitePost E db site st))"
| "runSegments E db (GlobalPre # rest) st =
     runSegments E db rest (scheduleGlobalTaskPre st)"
| "runSegments E db (GlobalPost config # rest) st =
     runSegments E db rest (fst (scheduleGlobalTaskPost E db config st))"

section \<open>Reading the outcome of a run\<close>

fun checkedSites :: "effect list \<Rightarrow> site list" where
  "checkedSites [] = []"
| "checkedSites (Check s skip # es) = s # checkedSites es"
| "checkedSites (e # es) = checkedSites es"

fun notifications :: "effect list \<Rightarrow> (changed_site list \<times> failed_site list) list" where
  "notifications [] = []"
| "notifications (SendAggregated cs fs # es) = (cs, fs) # notifications es"
| "notifications (e # es) = notifications es"

fun sleeps :: "effect list \<Rightarrow> int list" where
  "sleeps [] = []"
| "sleeps (Sleep ms # es) = ms # sleeps es"
| "sleeps (e # es) = sleeps es"

text \<open>\<open>separatedBy d xs\<close> puts \<open>d\<close> between consecutive elements of \<open>xs\<close>.\<close>

fun separatedBy :: "'a \<Rightarrow> 'a list \<Rightarrow> 'a list" where
  "separatedBy d [] = []"
| "separatedBy d [x] = [x]"
| "separatedBy d (x # y # ys) = x # d # separatedBy d (y # ys)"

text \<open>A check outcome is worth notifying when it has a model diff or a check-in result.\<close>

definition notifiable :: "check_result \<Rightarrow> bool" where
  "notifiable r = (hasChanges r \<or> checkInResult r \<noteq> None)"

definition changedEntry :: "check_result \<Rightarrow> changed_site" where
  "changedEntry r =
     \<lparr>cs_siteName = siteName r,
      cs_diff = (if hasChanges r then diff r else None),
      cs_checkInResult = checkInResult r\<rparr>"

definition changedOf :: "env \<Rightarrow> site list \<Rightarrow> changed_site list" where
  "changedOf E sites =
     map changedEntry (filter notifiable [r. Inr r \<leftarrow> map (checkSite E) sites])"

definition failedOf :: "env \<Rightarrow> site list \<Rightarrow> failed_site list" where
  "failedOf E sites =
     [\<lparr>fs_siteName = site_name s, fs_error = m\<rparr>. s \<leftarrow> sites, Inl m \<leftarrow> [checkSite E s]]"

text \<open>The candidate set of a global firing, in the words of the specification.\<close>

definition candidates :: "schedule_config \<Rightarrow> store \<Rightarrow> site list" where
  "candidates latest db =
     (if overrideIndividual latest then siteRows db
      else filter (\<lambda>s. noOwnSchedule (scheduleCron s)) (siteRows db))"

section \<open>Live jobs\<close>

text \<open>
  The live jobs of a site id are the handles of the running timers whose callback was
  installed for a site with that id; the live global jobs are the handles of the
  running timers with the global callback.
\<close>

definition siteJobOf :: "string \<Rightarrow> timer \<Rightarrow> bool" where
  "siteJobOf k t = (case t_callback t of SiteCheck s \<Rightarrow> site_id s = k | GlobalCheck c \<Rightarrow> False)"

definition globalJob :: "timer \<Rightarrow> bool" where
  "globalJob t = (case t_callback t of SiteCheck s \<Rightarrow> False | GlobalCheck c \<Rightarrow> True)"

definition liveSiteJobs :: "string \<Rightarrow> scheduler \<Rightarrow> nat list" where
  "liveSiteJobs k st =
     filter (\<lambda>h. running (timers st ! h) \<and> siteJobOf k (timers st ! h)) [0..<length (timers st)]"

definition liveGlobalJobs :: "scheduler \<Rightarrow> nat list" where
  "liveGlobalJobs st =
     filter (\<lambda>h. running (timers st ! h) \<and> globalJob (timers st ! h)) [0..<length (timers st)]"

text \<open>
  The registries own the timers: every running timer is the one its registry holds
  for its key, and every handle in a registry is a timer of that key. The module
  starts in such a state, and a call that runs from its first to its last segment
  with nothing in between keeps it. Overlapping calls do not.
\<close>

definition registered :: "scheduler \<Rightarrow> bool" where
  "registered st =
     ((\<forall>h < length (timers st). running (timers st ! h) \<longrightarrow>
         (case t_callback (timers st ! h) of
            SiteCheck s \<Rightarrow> map_of (jobs st) (site_id s) = Some h
          | GlobalCheck c \<Rightarrow> globalScheduleJob st = Some h))
      \<and> (\<forall>(k, h) \<in> set (jobs st). h < length (timers st) \<and> siteJobOf k (timers st ! h))
      \<and> (case globalScheduleJob st of
            None \<Rightarrow> True
          | Some h \<Rightarrow> h < length (timers st) \<and> globalJob (timers st ! h)))"

text \<open>
  The test of \<^verbatim>\<open>scheduleSite\<close> on the stored config:
  \<^verbatim>\<open>globalConfig?.enabled && globalConfig.overrideIndividual\<close>.
\<close>

definition overridden :: "store \<Rightarrow> bool" where
  "overridden db =
     (case findFirstConfig db of None \<Rightarrow> False | Some g \<Rightarrow> enabled g \<and> overrideIndividual g)"

text \<open>The timer \<^verbatim>\<open>scheduleSite\<close> creates for a site with the expression \<open>e\<close>.\<close>

definition siteTimer :: "site \<Rightarrow> string \<Rightarrow> timer" where
  "siteTimer site e =
     \<lparr>t_expr = e, t_timezone = Str (orDefault (site_timezone site) ''UTC''),
      t_callback = SiteCheck site, running = True\<rparr>"

text \<open>The first step of \<^verbatim>\<open>scheduleSite\<close>: stop and delete the job held for the key.\<close>

definition removeJob :: "string \<Rightarrow> scheduler \<Rightarrow> scheduler" where
  "removeJob key st =
     (case map_of (jobs st) key of
        Some h \<Rightarrow> st\<lparr>timers := stopTimer h (timers st), jobs := AList.delete key (jobs st)\<rparr>
      | None \<Rightarrow> st)"

text \<open>The last step of \<^verbatim>\<open>scheduleSite\<close>: the new started timer, entered under the site id.\<close>

definition installJob :: "site \<Rightarrow> string \<Rightarrow> scheduler \<Rightarrow> scheduler" where
  "installJob site e st =
     st\<lparr>timers := timers st @ [siteTimer site e],
        jobs := AList.update (site_id site) (length (timers st)) (jobs st)\<rparr>"

text \<open>The timer \<^verbatim>\<open>scheduleGlobalTask\<close> creates for a config.\<close>

definition globalTimer :: "schedule_config \<Rightarrow> timer" where
  "globalTimer c =
     \<lparr>t_expr = dailyCron c,
      t_timezone = (case cfg_timezone c of
                      Undefined \<Rightarrow> Str ''Asia/Shanghai'' | Null \<Rightarrow> Null | Str z \<Rightarrow> Str z),
      t_callback = GlobalCheck c, running = True\<rparr>"

text \<open>The first and the last step of \<^verbatim>\<open>scheduleGlobalTask\<close>.\<close>

definition stopGlobal :: "scheduler \<Rightarrow> scheduler" where
  "stopGlobal st =
     (case globalScheduleJob st of
        Some h \<Rightarrow> st\<lparr>timers := stopTimer h (timers st), globalScheduleJob := None\<rparr>
      | None \<Rightarrow> st)"

definition installGlobal :: "schedule_config \<Rightarrow> scheduler \<Rightarrow> scheduler" where
  "installGlobal c st =
     st\<lparr>timers := timers st @ [globalTimer c], globalScheduleJob := Some (length (timers st))\<rparr>"

section \<open>Example inputs\<close>

text \<open>The module state at load time: no timer, both registries empty.\<close>

definition initialScheduler :: scheduler where
  "initialScheduler = \<lparr>timers = [], jobs = [], globalScheduleJob = None\<rparr>"

definition siteA :: site where
  "siteA = \<lparr>site_id = ''a'', site_name = ''A'', scheduleCron = Some ''30 14 * * *'',
            site_timezone = Some ''UTC'', pinned = False, excludeFromBatch = False,
            categoryId = Some ''c1''\<rparr>"

definition siteB :: site where
  "siteB = \<lparr>site_id = ''b'', site_name = ''B'', scheduleCron = None,
            site_timezone = None, pinned = True, excludeFromBatch = True,
            categoryId = Some ''c1''\<rparr>"

definition siteC :: site where
  "siteC = \<lparr>site_id = ''c'', site_name = ''C'', scheduleCron = Some ''  '',
            site_timezone = Some ''UTC'', pinned = False, excludeFromBatch = False,
            categoryId = Some ''c1''\<rparr>"

definition siteBad :: site where
  "siteBad = \<lparr>site_id = ''d'', site_name = ''D'', scheduleCron = Some ''every day'',
              site_timezone = Some ''UTC'', pinned = False, excludeFromBatch = False,
              categoryId = None\<rparr>"

definition cat1 :: category where
  "cat1 = \<lparr>cat_id = ''c1'', cat_name = ''Cat'', cat_scheduleCron = Some ''0 8 * * *'',
           cat_timezone = Some ''UTC''\<rparr>"

definition cfg0 :: schedule_config where
  "cfg0 = \<lparr>cfg_id = ''g'', enabled = True, hour = 9, minute = 0, interval = 30,
           overrideIndividual = False, cfg_timezone = Str ''Asia/Shanghai'', lastRun = None\<rparr>"

definition db0 :: store where
  "db0 = \<lparr>siteRows = [siteA, siteB, siteC], categoryRows = [cat1], configRows = [cfg0]\<rparr>"

text \<open>An expression counts as well formed here when it has five fields.\<close>

definition fiveFields :: "string \<Rightarrow> bool" where
  "fiveFields e = (length (filter (\<lambda>c. c = CHR '' '') e) = 4)"

definition checkSite0 :: "site \<Rightarrow> string + check_result" where
  "checkSite0 s =
     (if site_id s = ''c'' then Inl ''timeout''
      else Inr \<lparr>siteName = site_name s, hasChanges = False, diff = None,
                checkInResult = (if site_id s = ''b''
                                 then Some \<lparr>checkInSuccess = True, checkInMessage = ''ok''\<rparr>
                                 else None),
                checkInChanged = False\<rparr>)"

definition env0 :: env where
  "env0 = \<lparr>cronValidate = fiveFields, storeFailure = (\<lambda>_. None), checkSite = checkSite0,
           sendAggregatedNotification = (\<lambda>_ _. None), now = 1000\<rparr>"

section \<open>Facts about the loops\<close>

declare showNat.simps [simp del]

lemma separatedBy_Cons:
  "separatedBy d (x # xs) = (if xs = [] then [x] else x # d # separatedBy d xs)"
  by (cases xs) simp_all

lemma globalLoop_effects:
  "effects (globalLoop E d sites b) =
     effects b @ separatedBy (Sleep d) (map (\<lambda>s. Check s True) sites)"
proof (induction sites arbitrary: b)
  case Nil
  show ?case by simp
next
  case (Cons s rest)
  show ?case
    by (simp add: Cons.IH Let_def separatedBy_Cons split: sum.splits)
qed

lemma globalLoop_changed:
  "sitesWithChanges (globalLoop E d sites b) = sitesWithChanges b @ changedOf E sites"
proof (induction sites arbitrary: b)
  case Nil
  show ?case by (simp add: changedOf_def)
next
  case (Cons s rest)
  show ?case
    by (simp add: Cons.IH Let_def changedOf_def notifiable_def changedEntry_def split: sum.splits)
qed

lemma globalLoop_failed:
  "failedSites (globalLoop E d sites b) = failedSites b @ failedOf E sites"
proof (induction sites arbitrary: b)
  case Nil
  show ?case by (simp add: failedOf_def)
next
  case (Cons s rest)
  show ?case
    by (simp add: Cons.IH Let_def failedOf_def split: sum.splits)
qed

lemma categoryLoop_effects:
  "effects (categoryLoop E sites b) =
     effects b @ separatedBy (Sleep 5000) (map (\<lambda>s. Check s False) sites)"
proof (induction sites arbitrary: b)
  case Nil
  show ?case by simp
next
  case (Cons s rest)
  show ?case
    by (simp add: Cons.IH Let_def separatedBy_Cons split: sum.splits)
qed

lemma categoryLoop_logged:
  "logged (categoryLoop E sites b) =
     logged b @ [CategorySiteCheckFailed (site_id s) (site_name s) m.
                   s \<leftarrow> sites, Inl m \<leftarrow> [checkSite E s]]"
proof (induction sites arbitrary: b)
  case Nil
  show ?case by simp
next
  case (Cons s rest)
  show ?case
    by (simp add: Cons.IH Let_def split: sum.splits)
qed

lemma checkedSites_separatedBy:
  "checkedSites (separatedBy (Sleep d) (map (\<lambda>s. Check s k) sites)) = sites"
  by (induction sites) (simp_all add: separatedBy_Cons)

lemma notifications_separatedBy:
  "notifications (separatedBy (Sleep d) (map (\<lambda>s. Check s k) sites)) = []"
  by (induction sites) (simp_all add: separatedBy_Cons)

lemma checkedSites_append: "checkedSites (xs @ ys) = checkedSites xs @ checkedSites ys"
  by (induction xs rule: checkedSites.induct) simp_all

lemma notifications_append: "notifications (xs @ ys) = notifications xs @ notifications ys"
  by (induction xs rule: notifications.induct) simp_all

text \<open>The effects of a global firing that gets past its two reads.\<close>

lemma globalFire_effects:
  assumes "storeFailure E ReadConfig = None"
    and "findUniqueConfig db (cfg_id config) = Some latest"
    and "enabled latest"
    and "storeFailure E ReadSites = None"
  shows "fr_effects (globalFire E config db) =
     separatedBy (Sleep (interval config * 1000))
       (map (\<lambda>s. Check s True) (candidates latest db)) @
     (if changedOf E (candidates latest db) \<noteq> [] \<or> failedOf E (candidates latest db) \<noteq> []
      then [SendAggregated (changedOf E (candidates latest db)) (failedOf E (candidates latest db))]
      else [])"
proof (cases "candidates latest db = []")
  case True
  then have "changedOf E (candidates latest db) = []" "failedOf E (candidates latest db) = []"
    by (simp_all add: changedOf_def failedOf_def)
  with True assms show ?thesis
    by (simp add: globalFire_def candidates_def Let_def split: sum.splits)
next
  case False
  with assms show ?thesis
    by (simp add: globalFire_def candidates_def Let_def globalLoop_effects globalLoop_changed
        globalLoop_failed emptyBatch_def split: sum.splits option.splits)
qed

lemma globalFire_checked:
  assumes "storeFailure E ReadConfig = None"
    and "findUniqueConfig db (cfg_id config) = Some latest"
    and "enabled latest"
    and "storeFailure E ReadSites = None"
  shows "checkedSites (fr_effects (globalFire E config db)) = candidates latest db"
  by (simp add: globalFire_effects [OF assms] checkedSites_append checkedSites_separatedBy)

lemma find_cfg_id: "find (\<lambda>c. cfg_id c = i) rows = Some c \<Longrightarrow> cfg_id c = i"
  by (induction rows) (auto split: if_splits)

section \<open>Evaluating the example inputs\<close>

lemma env0_simps [simp]:
  "storeFailure env0 op = None"
  "checkSite env0 = checkSite0"
  "now env0 = 1000"
  "cronValidate env0 = fiveFields"
  "sendAggregatedNotification env0 cs fs = None"
  by (simp_all add: env0_def)

lemmas example_defs =
  db0_def cfg0_def siteA_def siteB_def siteC_def siteBad_def cat1_def checkSite0_def
  fiveFields_def noOwnSchedule_def trim_def isWhiteSpace_def findUniqueConfig_def
  findFirstConfig_def findUniqueCategory_def

section \<open>The global firing\<close>

text \<open>
  C5. A global firing that re-reads an enabled config and the site list checks exactly
  the candidate set: every site when the re-read config has \<open>overrideIndividual\<close>,
  otherwise the sites without an own schedule expression (null, empty or blank), in
  store order. The \<open>excludeFromBatch\<close> flag plays no part: setting the flags of the
  stored sites in any way \<open>f\<close> leaves the same sites checked.
\<close>

theorem global_candidates:
  assumes "storeFailure E ReadConfig = None"
    and "findUniqueConfig db (cfg_id config) = Some latest"
    and "enabled latest"
    and "storeFailure E ReadSites = None"
  shows "checkedSites (fr_effects (globalFire E config db)) =
           (if overrideIndividual latest then siteRows db
            else filter (\<lambda>s. noOwnSchedule (scheduleCron s)) (siteRows db))
         \<and> checkedSites (fr_effects (globalFire E config
               (db\<lparr>siteRows := map (\<lambda>s. s\<lparr>excludeFromBatch := f s\<rparr>) (siteRows db)\<rparr>))) =
           map (\<lambda>s. s\<lparr>excludeFromBatch := f s\<rparr>)
             (checkedSites (fr_effects (globalFire E config db)))"
proof -
  let ?db' = "db\<lparr>siteRows := map (\<lambda>s. s\<lparr>excludeFromBatch := f s\<rparr>) (siteRows db)\<rparr>"
  have one: "checkedSites (fr_effects (globalFire E config db)) = candidates latest db"
    by (rule globalFire_checked [OF assms])
  have "findUniqueConfig ?db' (cfg_id config) = Some latest"
    using assms(2) by (simp add: findUniqueConfig_def)
  then have two: "checkedSites (fr_effects (globalFire E config ?db')) = candidates latest ?db'"
    using assms by (intro globalFire_checked) simp_all
  have "candidates latest ?db' = map (\<lambda>s. s\<lparr>excludeFromBatch := f s\<rparr>) (candidates latest db)"
    by (simp add: candidates_def filter_map comp_def)
  with one two show ?thesis
    by (simp add: candidates_def)
qed

theorem global_candidates_witness:
  "checkedSites (fr_effects (globalFire env0 cfg0 db0)) = [siteB, siteC]
   \<and> checkedSites (fr_effects (globalFire env0 cfg0
        (db0\<lparr>siteRows := map (\<lambda>s. s\<lparr>excludeFromBatch := False\<rparr>) (siteRows db0)\<rparr>))) =
      [siteB\<lparr>excludeFromBatch := False\<rparr>, siteC]
   \<and> checkedSites (fr_effects (globalFire env0 cfg0
        (db0\<lparr>configRows := [cfg0\<lparr>overrideIndividual := True\<rparr>]\<rparr>))) = [siteA, siteB, siteC]"
proof -
  have h2: "findUniqueConfig db0 (cfg_id cfg0) = Some cfg0"
    by (simp add: findUniqueConfig_def db0_def)
  have h3: "enabled cfg0"
    by (simp add: cfg0_def)
  have k2: "findUniqueConfig (db0\<lparr>configRows := [cfg0\<lparr>overrideIndividual := True\<rparr>]\<rparr>) (cfg_id cfg0)
              = Some (cfg0\<lparr>overrideIndividual := True\<rparr>)"
    by (simp add: findUniqueConfig_def)
  have k3: "enabled (cfg0\<lparr>overrideIndividual := True\<rparr>)"
    by (simp add: cfg0_def)
  from global_candidates [OF _ h2 h3, of env0 "\<lambda>s. False"]
    global_candidates [OF _ k2 k3, of env0 "\<lambda>s. False"]
  show ?thesis
    by (simp add: example_defs)
qed

text \<open>
  C10. The callback looks the config up by the id of the config captured at installation.
  When no row has that id, the firing ends as it does for a disabled row: the store is
  untouched (so \<open>lastRun\<close> is not written), no site is checked and nothing is sent,
  whatever other rows the store holds.
\<close>

theorem global_missing_config_skips:
  assumes "storeFailure E ReadConfig = None"
    and "case findUniqueConfig db (cfg_id config) of None \<Rightarrow> True | Some c \<Rightarrow> \<not> enabled c"
  shows "fire E (GlobalCheck config) db = \<lparr>fr_store = db, fr_effects = [], fr_logged = []\<rparr>"
  using assms by (cases "findUniqueConfig db (cfg_id config)") (simp_all add: fire_def globalFire_def)

theorem global_missing_config_skips_witness:
  "map cfg_id (configRows db0) = [''g''] \<and> map enabled (configRows db0) = [True]
   \<and> fire env0 (GlobalCheck (cfg0\<lparr>cfg_id := ''old''\<rparr>)) db0 =
       \<lparr>fr_store = db0, fr_effects = [], fr_logged = []\<rparr>
   \<and> fire env0 (GlobalCheck cfg0) (db0\<lparr>configRows := [cfg0\<lparr>enabled := False\<rparr>]\<rparr>) =
       \<lparr>fr_store = db0\<lparr>configRows := [cfg0\<lparr>enabled := False\<rparr>]\<rparr>, fr_effects = [], fr_logged = []\<rparr>"
proof -
  have h: "case findUniqueConfig db0 (cfg_id (cfg0\<lparr>cfg_id := ''old''\<rparr>)) of
             None \<Rightarrow> True | Some c \<Rightarrow> \<not> enabled c"
    by (simp add: findUniqueConfig_def db0_def cfg0_def)
  have k: "case findUniqueConfig (db0\<lparr>configRows := [cfg0\<lparr>enabled := False\<rparr>]\<rparr>) (cfg_id cfg0) of
             None \<Rightarrow> True | Some c \<Rightarrow> \<not> enabled c"
    by (simp add: findUniqueConfig_def)
  from global_missing_config_skips [OF _ h, of env0] global_missing_config_skips [OF _ k, of env0]
  show ?thesis
    by (simp add: db0_def cfg0_def)
qed

text \<open>
  C7. A global firing that re-reads an enabled config and whose store calls succeed
  writes \<open>lastRun = now\<close> on that row and changes nothing else in the store, whatever the
  candidate set (empty or not), the check outcomes and the notifier do. When the
  config read or the site read throws, the store is returned as it was, nothing is
  checked or sent, and the only trace is the logged error. When the final write
  throws, the store is as it was and the error is the last thing logged.
\<close>

theorem global_lastRun:
  "(storeFailure E ReadConfig = None \<and> findUniqueConfig db (cfg_id config) = Some latest
      \<and> enabled latest \<and> storeFailure E ReadSites = None \<and> storeFailure E WriteConfig = None
    \<longrightarrow> fr_store (globalFire E config db) =
          db\<lparr>configRows := map (\<lambda>c. if cfg_id c = cfg_id config
                                     then c\<lparr>lastRun := Some (now E)\<rparr> else c) (configRows db)\<rparr>
        \<and> findUniqueConfig (fr_store (globalFire E config db)) (cfg_id config) =
            Some (latest\<lparr>lastRun := Some (now E)\<rparr>))
   \<and> (storeFailure E ReadConfig = Some msg
    \<longrightarrow> globalFire E config db =
          \<lparr>fr_store = db, fr_effects = [], fr_logged = [GlobalTaskError msg]\<rparr>)
   \<and> (storeFailure E ReadConfig = None \<and> findUniqueConfig db (cfg_id config) = Some latest
      \<and> enabled latest \<and> storeFailure E ReadSites = Some msg
    \<longrightarrow> globalFire E config db =
          \<lparr>fr_store = db, fr_effects = [], fr_logged = [GlobalTaskError msg]\<rparr>)
   \<and> (storeFailure E ReadConfig = None \<and> findUniqueConfig db (cfg_id config) = Some latest
      \<and> enabled latest \<and> storeFailure E ReadSites = None \<and> storeFailure E WriteConfig = Some msg
    \<longrightarrow> fr_store (globalFire E config db) = db
        \<and> fr_logged (globalFire E config db) \<noteq> []
        \<and> last (fr_logged (globalFire E config db)) = GlobalTaskError msg)"
proof (intro conjI impI)
  assume a: "storeFailure E ReadConfig = None \<and> findUniqueConfig db (cfg_id config) = Some latest
      \<and> enabled latest \<and> storeFailure E ReadSites = None \<and> storeFailure E WriteConfig = None"
  then have i: "cfg_id latest = cfg_id config"
    by (auto simp add: findUniqueConfig_def dest: find_cfg_id)
  from a i show st: "fr_store (globalFire E config db) =
          db\<lparr>configRows := map (\<lambda>c. if cfg_id c = cfg_id config
                                     then c\<lparr>lastRun := Some (now E)\<rparr> else c) (configRows db)\<rparr>"
    by (simp add: globalFire_def updateLastRun_def Let_def)
  have f: "find (\<lambda>c. cfg_id c = i) (map (\<lambda>c. if cfg_id c = i then c\<lparr>lastRun := t\<rparr> else c) rows) =
          map_option (\<lambda>c. c\<lparr>lastRun := t\<rparr>) (find (\<lambda>c. cfg_id c = i) rows)" for i t rows
    by (induction rows) simp_all
  from a f [of "cfg_id config" "Some (now E)" "configRows db"] show "findUniqueConfig (fr_store (globalFire E config db)) (cfg_id config) =
            Some (latest\<lparr>lastRun := Some (now E)\<rparr>)"
    unfolding st by (simp add: findUniqueConfig_def)
next
  assume "storeFailure E ReadConfig = Some msg"
  then show "globalFire E config db =
          \<lparr>fr_store = db, fr_effects = [], fr_logged = [GlobalTaskError msg]\<rparr>"
    by (simp add: globalFire_def)
next
  assume "storeFailure E ReadConfig = None \<and> findUniqueConfig db (cfg_id config) = Some latest
      \<and> enabled latest \<and> storeFailure E ReadSites = Some msg"
  then show "globalFire E config db =
          \<lparr>fr_store = db, fr_effects = [], fr_logged = [GlobalTaskError msg]\<rparr>"
    by (simp add: globalFire_def)
next
  assume a: "storeFailure E ReadConfig = None \<and> findUniqueConfig db (cfg_id config) = Some latest
      \<and> enabled latest \<and> storeFailure E ReadSites = None \<and> storeFailure E WriteConfig = Some msg"
  then show "fr_store (globalFire E config db) = db"
    by (simp add: globalFire_def updateLastRun_def Let_def)
  from a show "fr_logged (globalFire E config db) \<noteq> []"
    by (simp add: globalFire_def updateLastRun_def Let_def)
  from a show "last (fr_logged (globalFire E config db)) = GlobalTaskError msg"
    by (simp add: globalFire_def updateLastRun_def Let_def)
qed

theorem global_lastRun_witness:
  "configRows (fr_store (globalFire env0 cfg0 db0)) = [cfg0\<lparr>lastRun := Some 1000\<rparr>]
   \<and> configRows (fr_store (globalFire env0 cfg0 (db0\<lparr>siteRows := [siteA]\<rparr>))) =
       [cfg0\<lparr>lastRun := Some 1000\<rparr>]
   \<and> globalFire (env0\<lparr>storeFailure := (\<lambda>op. if op = ReadConfig then Some ''down'' else None)\<rparr>)
       cfg0 db0 = \<lparr>fr_store = db0, fr_effects = [], fr_logged = [GlobalTaskError ''down'']\<rparr>
   \<and> globalFire (env0\<lparr>storeFailure := (\<lambda>op. if op = ReadSites then Some ''down'' else None)\<rparr>)
       cfg0 db0 = \<lparr>fr_store = db0, fr_effects = [], fr_logged = [GlobalTaskError ''down'']\<rparr>
   \<and> fr_store (globalFire
         (env0\<lparr>storeFailure := (\<lambda>op. if op = WriteConfig then Some ''down'' else None)\<rparr>)
         cfg0 db0) = db0"
proof -
  have h: "findUniqueConfig db0 (cfg_id cfg0) = Some cfg0" "enabled cfg0"
    by (simp_all add: findUniqueConfig_def db0_def cfg0_def)
  have k: "findUniqueConfig (db0\<lparr>siteRows := [siteA]\<rparr>) (cfg_id cfg0) = Some cfg0"
    by (simp add: findUniqueConfig_def db0_def)
  from h k
    global_lastRun [of env0 db0 cfg0 cfg0 "''down''"]
    global_lastRun [of env0 "db0\<lparr>siteRows := [siteA]\<rparr>" cfg0 cfg0 "''down''"]
    global_lastRun [of "env0\<lparr>storeFailure := (\<lambda>op. if op = ReadConfig then Some ''down'' else None)\<rparr>"
      db0 cfg0 cfg0 "''down''"]
    global_lastRun [of "env0\<lparr>storeFailure := (\<lambda>op. if op = ReadSites then Some ''down'' else None)\<rparr>"
      db0 cfg0 cfg0 "''down''"]
    global_lastRun [of "env0\<lparr>storeFailure := (\<lambda>op. if op = WriteConfig then Some ''down'' else None)\<rparr>"
      db0 cfg0 cfg0 "''down''"]
  show ?thesis
    by (simp add: db0_def cfg0_def)
qed

text \<open>
  C8. In a global firing that re-reads an enabled config and the site list, the payload
  of changed sites holds one entry for each checked site whose check returned a model
  diff or a check-in result, and no other; the notifier is called once, with that
  payload and the failures, when one of the two lists is non-empty, and not at all
  otherwise.
\<close>

theorem global_notification:
  assumes "storeFailure E ReadConfig = None"
    and "findUniqueConfig db (cfg_id config) = Some latest"
    and "enabled latest"
    and "storeFailure E ReadSites = None"
  shows "notifications (fr_effects (globalFire E config db)) =
           (let sites = checkedSites (fr_effects (globalFire E config db));
                changed = map changedEntry
                            (filter (\<lambda>r. hasChanges r \<or> checkInResult r \<noteq> None)
                               [r. Inr r \<leftarrow> map (checkSite E) sites]);
                failed = [\<lparr>fs_siteName = site_name s, fs_error = m\<rparr>.
                            s \<leftarrow> sites, Inl m \<leftarrow> [checkSite E s]]
            in if changed \<noteq> [] \<or> failed \<noteq> [] then [(changed, failed)] else [])"
proof -
  have n: "notifiable = (\<lambda>r. hasChanges r \<or> checkInResult r \<noteq> None)"
    by (simp add: fun_eq_iff notifiable_def)
  show ?thesis
    unfolding globalFire_checked [OF assms] Let_def
    unfolding globalFire_effects [OF assms]
    by (simp add: notifications_append notifications_separatedBy changedOf_def failedOf_def n)
qed

theorem global_notification_witness:
  "notifications (fr_effects (globalFire env0 cfg0 db0)) =
     [([\<lparr>cs_siteName = ''B'', cs_diff = None,
         cs_checkInResult = Some \<lparr>checkInSuccess = True, checkInMessage = ''ok''\<rparr>\<rparr>],
       [\<lparr>fs_siteName = ''C'', fs_error = ''timeout''\<rparr>])]
   \<and> notifications (fr_effects (globalFire env0 cfg0 (db0\<lparr>siteRows := [siteA, siteC\<lparr>site_id := ''e''\<rparr>]\<rparr>))) = []"
proof -
  have h: "findUniqueConfig db0 (cfg_id cfg0) = Some cfg0" "enabled cfg0"
    by (simp_all add: findUniqueConfig_def db0_def cfg0_def)
  have k: "findUniqueConfig (db0\<lparr>siteRows := [siteA, siteC\<lparr>site_id := ''e''\<rparr>]\<rparr>) (cfg_id cfg0) = Some cfg0"
    by (simp add: findUniqueConfig_def db0_def)
  have c: "checkedSites (fr_effects (globalFire env0 cfg0 db0)) = [siteB, siteC]"
    using globalFire_checked [OF _ h, of env0] by (simp add: candidates_def example_defs)
  have d: "checkedSites (fr_effects (globalFire env0 cfg0 (db0\<lparr>siteRows := [siteA, siteC\<lparr>site_id := ''e''\<rparr>]\<rparr>)))
             = [siteC\<lparr>site_id := ''e''\<rparr>]"
    using globalFire_checked [OF _ k h(2), of env0] by (simp add: candidates_def example_defs)
  from global_notification [OF _ h, of env0] global_notification [OF _ k h(2), of env0]
  show ?thesis
    unfolding c d by (simp add: example_defs changedEntry_def)
qed

section \<open>Batches\<close>

lemma sleeps_separatedBy:
  "sleeps (separatedBy (Sleep d) (map (\<lambda>s. Check s k) sites)) = replicate (length sites - 1) d"
proof (induction sites)
  case Nil
  show ?case by simp
next
  case (Cons s rest)
  then show ?case
    by (cases rest) (simp_all add: separatedBy_Cons)
qed

text \<open>
  C6. The loop of the global firing calls the checker on every item once, in input
  order, with one pause of the pacing delay between consecutive items and none after
  the last, whatever the checks return or throw; each throwing item is entered in the
  failure list. The loop of a category firing does the same with its pause of
  5000 ms, and logs each throwing item. The calls form one sequence, each check
  awaited before the pause or the next check. On the empty list both loops return
  their empty accumulator: no call, no pause, empty changed and failed lists.
\<close>

theorem batch_in_order:
  "effects (globalLoop E d sites emptyBatch) =
     separatedBy (Sleep d) (map (\<lambda>s. Check s True) sites)
   \<and> checkedSites (effects (globalLoop E d sites emptyBatch)) = sites
   \<and> sleeps (effects (globalLoop E d sites emptyBatch)) = replicate (length sites - 1) d
   \<and> failedSites (globalLoop E d sites emptyBatch) =
       [\<lparr>fs_siteName = site_name s, fs_error = m\<rparr>. s \<leftarrow> sites, Inl m \<leftarrow> [checkSite E s]]
   \<and> effects (categoryLoop E sites emptyBatch) =
       separatedBy (Sleep 5000) (map (\<lambda>s. Check s False) sites)
   \<and> checkedSites (effects (categoryLoop E sites emptyBatch)) = sites
   \<and> sleeps (effects (categoryLoop E sites emptyBatch)) = replicate (length sites - 1) 5000
   \<and> logged (categoryLoop E sites emptyBatch) =
       [CategorySiteCheckFailed (site_id s) (site_name s) m. s \<leftarrow> sites, Inl m \<leftarrow> [checkSite E s]]
   \<and> globalLoop E d [] emptyBatch =
       \<lparr>effects = [], logged = [], sitesWithChanges = [], failedSites = []\<rparr>
   \<and> categoryLoop E [] emptyBatch =
       \<lparr>effects = [], logged = [], sitesWithChanges = [], failedSites = []\<rparr>"
proof -
  have g: "effects (globalLoop E d sites emptyBatch) =
             separatedBy (Sleep d) (map (\<lambda>s. Check s True) sites)"
    by (simp add: globalLoop_effects emptyBatch_def)
  have c: "effects (categoryLoop E sites emptyBatch) =
             separatedBy (Sleep 5000) (map (\<lambda>s. Check s False) sites)"
    by (simp add: categoryLoop_effects emptyBatch_def)
  have f: "failedSites (globalLoop E d sites emptyBatch) =
       [\<lparr>fs_siteName = site_name s, fs_error = m\<rparr>. s \<leftarrow> sites, Inl m \<leftarrow> [checkSite E s]]"
    by (simp add: globalLoop_failed failedOf_def emptyBatch_def)
  have l: "logged (categoryLoop E sites emptyBatch) =
       [CategorySiteCheckFailed (site_id s) (site_name s) m. s \<leftarrow> sites, Inl m \<leftarrow> [checkSite E s]]"
    by (simp add: categoryLoop_logged emptyBatch_def)
  show ?thesis
    unfolding g c f l
    by (simp add: checkedSites_separatedBy sleeps_separatedBy emptyBatch_def)
qed

theorem batch_in_order_witness:
  "effects (globalLoop env0 0 [siteA, siteC, siteB] emptyBatch) =
     [Check siteA True, Sleep 0, Check siteC True, Sleep 0, Check siteB True]
   \<and> failedSites (globalLoop env0 0 [siteA, siteC, siteB] emptyBatch) =
       [\<lparr>fs_siteName = ''C'', fs_error = ''timeout''\<rparr>]
   \<and> effects (categoryLoop env0 [siteA, siteC, siteB] emptyBatch) =
       [Check siteA False, Sleep 5000, Check siteC False, Sleep 5000, Check siteB False]
   \<and> logged (categoryLoop env0 [siteA, siteC, siteB] emptyBatch) =
       [CategorySiteCheckFailed ''c'' ''C'' ''timeout'']"
  using batch_in_order [of env0 0 "[siteA, siteC, siteB]"]
  by (simp add: example_defs)

section \<open>Pinned sites\<close>

text \<open>
  C2, as stated, fails for the global firing: the pinned site \<open>siteB\<close> has no schedule
  of its own and is checked by the global firing.
\<close>

theorem pinned_site_in_global_batch:
  "pinned siteB \<and> siteB \<in> set (checkedSites (fr_effects (globalFire env0 cfg0 db0)))"
proof -
  have h: "findUniqueConfig db0 (cfg_id cfg0) = Some cfg0" "enabled cfg0"
    by (simp_all add: findUniqueConfig_def db0_def cfg0_def)
  have "checkedSites (fr_effects (globalFire env0 cfg0 db0)) = [siteB, siteC]"
    using globalFire_checked [OF _ h, of env0] by (simp add: candidates_def example_defs)
  then show ?thesis
    by (simp add: siteB_def)
qed

text \<open>
  C2, amended. A category firing never calls the checker on a pinned site: it checks
  exactly the non-pinned members of the category. A global firing does not consult
  the flag: a pinned site of the store is checked exactly when the re-read config has
  \<open>overrideIndividual\<close> or the site has no schedule expression of its own.
\<close>

theorem pinned_skipped_by_category_only:
  "(\<forall>s \<in> set (checkedSites (fr_effects (categoryFire E category db))). \<not> pinned s)
   \<and> (storeFailure E ReadCategory = None
        \<and> findUniqueCategory db (cat_id category) = Some (latestCategory, members)
      \<longrightarrow> checkedSites (fr_effects (categoryFire E category db)) =
            filter (\<lambda>s. \<not> pinned s) members)
   \<and> (storeFailure E ReadConfig = None \<and> findUniqueConfig db (cfg_id config) = Some latest
        \<and> enabled latest \<and> storeFailure E ReadSites = None
      \<longrightarrow> (\<forall>s \<in> set (siteRows db). pinned s \<longrightarrow>
             (s \<in> set (checkedSites (fr_effects (globalFire E config db)))
              \<longleftrightarrow> overrideIndividual latest \<or> noOwnSchedule (scheduleCron s))))"
proof (intro conjI impI)
  have c: "checkedSites (fr_effects (categoryFire E category db)) =
             filter (\<lambda>s. \<not> pinned s) members"
    if "storeFailure E ReadCategory = None"
      and "findUniqueCategory db (cat_id category) = Some (latestCategory, members)"
    for latestCategory members
    using that
    by (simp add: categoryFire_def Let_def categoryLoop_effects checkedSites_separatedBy
        emptyBatch_def)
  show "\<forall>s \<in> set (checkedSites (fr_effects (categoryFire E category db))). \<not> pinned s"
  proof (cases "storeFailure E ReadCategory")
    case (Some msg)
    then show ?thesis by (simp add: categoryFire_def)
  next
    case None
    show ?thesis
    proof (cases "findUniqueCategory db (cat_id category)")
      case n: None
      with None show ?thesis by (simp add: categoryFire_def)
    next
      case (Some p)
      obtain l m where "p = (l, m)" by (cases p)
      with Some c [OF None] show ?thesis by simp
    qed
  qed
  show "checkedSites (fr_effects (categoryFire E category db)) = filter (\<lambda>s. \<not> pinned s) members"
    if "storeFailure E ReadCategory = None
        \<and> findUniqueCategory db (cat_id category) = Some (latestCategory, members)"
    using that c by blast
next
  assume a: "storeFailure E ReadConfig = None \<and> findUniqueConfig db (cfg_id config) = Some latest
        \<and> enabled latest \<and> storeFailure E ReadSites = None"
  then have "checkedSites (fr_effects (globalFire E config db)) = candidates latest db"
    by (intro globalFire_checked) simp_all
  then show "\<forall>s \<in> set (siteRows db). pinned s \<longrightarrow>
             (s \<in> set (checkedSites (fr_effects (globalFire E config db)))
              \<longleftrightarrow> overrideIndividual latest \<or> noOwnSchedule (scheduleCron s))"
    by (simp add: candidates_def)
qed

theorem pinned_skipped_by_category_only_witness:
  "checkedSites (fr_effects (categoryFire env0 cat1 db0)) = [siteA, siteC]
   \<and> pinned siteB \<and> siteB \<in> set (siteRows db0)
   \<and> siteB \<in> set (checkedSites (fr_effects (globalFire env0 cfg0 db0)))"
proof -
  have h: "findUniqueConfig db0 (cfg_id cfg0) = Some cfg0" "enabled cfg0"
    by (simp_all add: findUniqueConfig_def db0_def cfg0_def)
  have k: "findUniqueCategory db0 (cat_id cat1) = Some (cat1, [siteA, siteB, siteC])"
    by (simp add: example_defs)
  have m: "siteB \<in> set (siteRows db0)" "pinned siteB" "noOwnSchedule (scheduleCron siteB)"
    by (simp_all add: example_defs)
  from h k m pinned_skipped_by_category_only [of env0 cat1 db0 cat1 "[siteA, siteB, siteC]" cfg0 cfg0]
  show ?thesis
    by (simp add: siteA_def siteB_def siteC_def)
qed

section \<open>The pacing delay of the global firing\<close>

text \<open>
  C1 fails on the code. The job is installed with an interval of 30 seconds; the
  stored row is then changed to 10 seconds. The firing re-reads the row, yet pauses
  for 30000 ms between its two checks: the delay is \<^verbatim>\<open>config.interval\<close> of the captured
  argument, not of \<^verbatim>\<open>latestConfig\<close>.
\<close>

theorem pacing_delay_is_the_captured_interval:
  "interval cfg0 = 30
   \<and> fst (scheduleGlobalTask env0 db0 (Some cfg0) initialScheduler) =
       \<lparr>timers = [\<lparr>t_expr = ''30 14 * * *'', t_timezone = Str ''UTC'',
                    t_callback = SiteCheck siteA, running = True\<rparr>,
                   \<lparr>t_expr = ''0 9 * * *'', t_timezone = Str ''Asia/Shanghai'',
                    t_callback = GlobalCheck cfg0, running = True\<rparr>],
        jobs = [(''a'', 0)], globalScheduleJob = Some 1\<rparr>
   \<and> findUniqueConfig (db0\<lparr>configRows := [cfg0\<lparr>interval := 10\<rparr>]\<rparr>) (cfg_id cfg0) =
       Some (cfg0\<lparr>interval := 10\<rparr>)
   \<and> sleeps (fr_effects (fire env0 (GlobalCheck cfg0)
        (db0\<lparr>configRows := [cfg0\<lparr>interval := 10\<rparr>]\<rparr>))) = [30000]"
  by code_simp

section \<open>Timers\<close>

lemma length_stopTimer [simp]: "length (stopTimer h ts) = length ts"
  by (simp add: stopTimer_def)

lemma nth_stopTimer:
  "i < length ts \<Longrightarrow> stopTimer h ts ! i = (if i = h then (ts ! i)\<lparr>running := False\<rparr> else ts ! i)"
  by (simp add: stopTimer_def)

lemma startTimer_new: "startTimer (length ts) (ts @ [t]) = ts @ [t\<lparr>running := True\<rparr>]"
  by (simp add: startTimer_def)

lemma siteJobOf_stop [simp]: "siteJobOf k (t\<lparr>running := b\<rparr>) = siteJobOf k t"
  by (simp add: siteJobOf_def)

lemma globalJob_stop [simp]: "globalJob (t\<lparr>running := b\<rparr>) = globalJob t"
  by (simp add: globalJob_def)

lemma siteJobOf_unique: "siteJobOf k t \<Longrightarrow> siteJobOf k' t \<Longrightarrow> k = k'"
  by (auto simp add: siteJobOf_def split: callback.splits)

lemma siteJobOf_not_global: "siteJobOf k t \<Longrightarrow> \<not> globalJob t"
  by (auto simp add: siteJobOf_def globalJob_def split: callback.splits)

lemma filter_upt_cong:
  "(\<And>h. h < n \<Longrightarrow> P h = Q h) \<Longrightarrow> filter P [0..<n] = filter Q [0..<n]"
  by (rule filter_cong) auto

lemma filter_upt_empty: "(\<And>h. h < n \<Longrightarrow> \<not> P h) \<Longrightarrow> filter P [0..<n] = []"
  by (simp add: filter_empty_conv)

lemma registered_initial: "registered initialScheduler"
  by (simp add: registered_def initialScheduler_def)

lemma registered_siteD:
  "registered st \<Longrightarrow> h < length (timers st) \<Longrightarrow> running (timers st ! h) \<Longrightarrow>
   siteJobOf k (timers st ! h) \<Longrightarrow> map_of (jobs st) k = Some h"
  by (auto simp add: registered_def siteJobOf_def split: callback.splits)

lemma registered_globalD:
  "registered st \<Longrightarrow> h < length (timers st) \<Longrightarrow> running (timers st ! h) \<Longrightarrow>
   globalJob (timers st ! h) \<Longrightarrow> globalScheduleJob st = Some h"
  by (auto simp add: registered_def globalJob_def split: callback.splits)

lemma registered_entryD:
  "registered st \<Longrightarrow> (k, h) \<in> set (jobs st) \<Longrightarrow>
   h < length (timers st) \<and> siteJobOf k (timers st ! h)"
  by (auto simp add: registered_def)

lemma registered_jobsD:
  "registered st \<Longrightarrow> map_of (jobs st) k = Some h \<Longrightarrow>
   h < length (timers st) \<and> siteJobOf k (timers st ! h)"
  by (auto simp add: registered_def dest!: map_of_SomeD)

section \<open>Removing the job of a site\<close>

lemma removeJob_length [simp]: "length (timers (removeJob k st)) = length (timers st)"
  by (simp add: removeJob_def split: option.splits)

lemma removeJob_global [simp]: "globalScheduleJob (removeJob k st) = globalScheduleJob st"
  by (simp add: removeJob_def split: option.splits)

lemma removeJob_map_of:
  "map_of (jobs (removeJob k st)) k' = (if k' = k then None else map_of (jobs st) k')"
  by (auto simp add: removeJob_def AList.delete_conv' split: option.splits)

lemma removeJob_set: "set (jobs (removeJob k st)) \<subseteq> set (jobs st)"
  by (auto simp add: removeJob_def AList.delete_eq split: option.splits)

lemma removeJob_callback:
  "h < length (timers st) \<Longrightarrow>
   t_callback (timers (removeJob k st) ! h) = t_callback (timers st ! h)"
  by (simp add: removeJob_def nth_stopTimer split: option.splits)

lemma removeJob_kind:
  "h < length (timers st) \<Longrightarrow>
   siteJobOf k' (timers (removeJob k st) ! h) = siteJobOf k' (timers st ! h) \<and>
   globalJob (timers (removeJob k st) ! h) = globalJob (timers st ! h)"
  by (simp add: removeJob_def nth_stopTimer split: option.splits)

lemma removeJob_running:
  "h < length (timers st) \<Longrightarrow>
   running (timers (removeJob k st) ! h) =
     (running (timers st ! h) \<and> map_of (jobs st) k \<noteq> Some h)"
  by (auto simp add: removeJob_def nth_stopTimer split: option.splits)

lemma removeJob_registered:
  assumes "registered st"
  shows "registered (removeJob k st)"
  unfolding registered_def
proof (intro conjI allI impI)
  fix h
  assume h: "h < length (timers (removeJob k st))" and r: "running (timers (removeJob k st) ! h)"
  then have h': "h < length (timers st)" and r': "running (timers st ! h)"
    and n: "map_of (jobs st) k \<noteq> Some h"
    by (simp_all add: removeJob_running)
  show "case t_callback (timers (removeJob k st) ! h) of
          SiteCheck s \<Rightarrow> map_of (jobs (removeJob k st)) (site_id s) = Some h
        | GlobalCheck c \<Rightarrow> globalScheduleJob (removeJob k st) = Some h"
  proof (cases "t_callback (timers st ! h)")
    case (SiteCheck s)
    then have "siteJobOf (site_id s) (timers st ! h)"
      by (simp add: siteJobOf_def)
    then have m: "map_of (jobs st) (site_id s) = Some h"
      using assms h' r' by (rule registered_siteD [rotated 3])
    with n have "site_id s \<noteq> k" by auto
    with m SiteCheck h' show ?thesis
      by (simp add: removeJob_callback removeJob_map_of)
  next
    case (GlobalCheck c)
    then have "globalJob (timers st ! h)"
      by (simp add: globalJob_def)
    then have "globalScheduleJob st = Some h"
      using assms h' r' by (rule registered_globalD [rotated 3])
    with GlobalCheck h' show ?thesis
      by (simp add: removeJob_callback)
  qed
next
  show "\<forall>(k', h) \<in> set (jobs (removeJob k st)).
          h < length (timers (removeJob k st)) \<and> siteJobOf k' (timers (removeJob k st) ! h)"
  proof (clarify)
    fix k' h
    assume "(k', h) \<in> set (jobs (removeJob k st))"
    then have "(k', h) \<in> set (jobs st)"
      using removeJob_set by blast
    then have "h < length (timers st) \<and> siteJobOf k' (timers st ! h)"
      using assms by (rule registered_entryD [rotated])
    then show "h < length (timers (removeJob k st)) \<and> siteJobOf k' (timers (removeJob k st) ! h)"
      by (simp add: removeJob_kind)
  qed
next
  show "case globalScheduleJob (removeJob k st) of
          None \<Rightarrow> True
        | Some h \<Rightarrow> h < length (timers (removeJob k st)) \<and> globalJob (timers (removeJob k st) ! h)"
    using assms by (auto simp add: registered_def removeJob_kind split: option.splits)
qed

lemma removeJob_own:
  assumes "registered st"
  shows "liveSiteJobs k (removeJob k st) = []"
  unfolding liveSiteJobs_def
proof (rule filter_upt_empty)
  fix h
  assume "h < length (timers (removeJob k st))"
  then have h: "h < length (timers st)" by simp
  show "\<not> (running (timers (removeJob k st) ! h) \<and> siteJobOf k (timers (removeJob k st) ! h))"
    using registered_siteD [OF assms h, of k] h
    by (auto simp add: removeJob_running removeJob_kind)
qed

lemma removeJob_other:
  assumes "registered st" and "k' \<noteq> k"
  shows "liveSiteJobs k' (removeJob k st) = liveSiteJobs k' st"
  unfolding liveSiteJobs_def removeJob_length
proof (rule filter_upt_cong)
  fix h
  assume h: "h < length (timers st)"
  show "(running (timers (removeJob k st) ! h) \<and> siteJobOf k' (timers (removeJob k st) ! h)) =
        (running (timers st ! h) \<and> siteJobOf k' (timers st ! h))"
    using registered_jobsD [OF assms(1), of k h] assms(2) h
    by (auto simp add: removeJob_running removeJob_kind dest: siteJobOf_unique)
qed

lemma removeJob_liveGlobal:
  assumes "registered st"
  shows "liveGlobalJobs (removeJob k st) = liveGlobalJobs st"
  unfolding liveGlobalJobs_def removeJob_length
proof (rule filter_upt_cong)
  fix h
  assume h: "h < length (timers st)"
  show "(running (timers (removeJob k st) ! h) \<and> globalJob (timers (removeJob k st) ! h)) =
        (running (timers st ! h) \<and> globalJob (timers st ! h))"
    using registered_jobsD [OF assms(1), of k h] h
    by (auto simp add: removeJob_running removeJob_kind dest: siteJobOf_not_global)
qed


section \<open>Installing the job of a site\<close>

lemma update_entries: "set (AList.update k v al) \<subseteq> insert (k, v) (set al)"
  by (induction al) auto

lemma installJob_length [simp]: "length (timers (installJob site e st)) = Suc (length (timers st))"
  by (simp add: installJob_def)

lemma installJob_global [simp]: "globalScheduleJob (installJob site e st) = globalScheduleJob st"
  by (simp add: installJob_def)

lemma installJob_map_of:
  "map_of (jobs (installJob site e st)) k =
     (if k = site_id site then Some (length (timers st)) else map_of (jobs st) k)"
  by (simp add: installJob_def AList.update_conv')

lemma installJob_old:
  "h < length (timers st) \<Longrightarrow> timers (installJob site e st) ! h = timers st ! h"
  by (simp add: installJob_def nth_append)

lemma installJob_new: "timers (installJob site e st) ! length (timers st) = siteTimer site e"
  by (simp add: installJob_def)

lemma siteTimer_kind [simp]:
  "siteJobOf k (siteTimer site e) = (site_id site = k)"
  "\<not> globalJob (siteTimer site e)"
  "running (siteTimer site e)"
  by (simp_all add: siteTimer_def siteJobOf_def globalJob_def)

lemma installJob_own:
  assumes "liveSiteJobs (site_id site) st = []"
  shows "liveSiteJobs (site_id site) (installJob site e st) = [length (timers st)]"
proof -
  have "filter (\<lambda>h. running (timers (installJob site e st) ! h) \<and>
                     siteJobOf (site_id site) (timers (installJob site e st) ! h))
          [0..<length (timers st)] =
        filter (\<lambda>h. running (timers st ! h) \<and> siteJobOf (site_id site) (timers st ! h))
          [0..<length (timers st)]"
    by (rule filter_upt_cong) (simp add: installJob_old)
  with assms show ?thesis
    by (simp add: liveSiteJobs_def installJob_new)
qed

lemma installJob_other:
  assumes "k \<noteq> site_id site"
  shows "liveSiteJobs k (installJob site e st) = liveSiteJobs k st"
proof -
  have "filter (\<lambda>h. running (timers (installJob site e st) ! h) \<and>
                     siteJobOf k (timers (installJob site e st) ! h))
          [0..<length (timers st)] =
        filter (\<lambda>h. running (timers st ! h) \<and> siteJobOf k (timers st ! h))
          [0..<length (timers st)]"
    by (rule filter_upt_cong) (simp add: installJob_old)
  with assms show ?thesis
    by (auto simp add: liveSiteJobs_def installJob_new)
qed

lemma installJob_liveGlobal: "liveGlobalJobs (installJob site e st) = liveGlobalJobs st"
proof -
  have "filter (\<lambda>h. running (timers (installJob site e st) ! h) \<and>
                     globalJob (timers (installJob site e st) ! h))
          [0..<length (timers st)] =
        filter (\<lambda>h. running (timers st ! h) \<and> globalJob (timers st ! h))
          [0..<length (timers st)]"
    by (rule filter_upt_cong) (simp add: installJob_old)
  then show ?thesis
    by (simp add: liveGlobalJobs_def installJob_new)
qed

lemma liveSiteJobs_emptyD:
  "liveSiteJobs k st = [] \<Longrightarrow> h < length (timers st) \<Longrightarrow> running (timers st ! h) \<Longrightarrow>
   \<not> siteJobOf k (timers st ! h)"
  by (auto simp add: liveSiteJobs_def filter_empty_conv)

lemma installJob_registered:
  assumes reg: "registered st" and none: "liveSiteJobs (site_id site) st = []"
  shows "registered (installJob site e st)"
  unfolding registered_def
proof (intro conjI allI impI)
  fix h
  assume h: "h < length (timers (installJob site e st))"
    and r: "running (timers (installJob site e st) ! h)"
  show "case t_callback (timers (installJob site e st) ! h) of
          SiteCheck s \<Rightarrow> map_of (jobs (installJob site e st)) (site_id s) = Some h
        | GlobalCheck c \<Rightarrow> globalScheduleJob (installJob site e st) = Some h"
  proof (cases "h = length (timers st)")
    case True
    then show ?thesis
      by (simp add: installJob_new installJob_map_of siteTimer_def)
  next
    case False
    with h have h': "h < length (timers st)" by simp
    with r have r': "running (timers st ! h)" by (simp add: installJob_old)
    show ?thesis
    proof (cases "t_callback (timers st ! h)")
      case (SiteCheck s)
      then have j: "siteJobOf (site_id s) (timers st ! h)"
        by (simp add: siteJobOf_def)
      then have m: "map_of (jobs st) (site_id s) = Some h"
        using reg h' r' by (rule registered_siteD [rotated 3])
      from j liveSiteJobs_emptyD [OF none h' r'] have "site_id s \<noteq> site_id site"
        by auto
      with m SiteCheck h' show ?thesis
        by (simp add: installJob_old installJob_map_of)
    next
      case (GlobalCheck c)
      then have "globalJob (timers st ! h)"
        by (simp add: globalJob_def)
      then have "globalScheduleJob st = Some h"
        using reg h' r' by (rule registered_globalD [rotated 3])
      with GlobalCheck h' show ?thesis
        by (simp add: installJob_old)
    qed
  qed
next
  show "\<forall>(k, h) \<in> set (jobs (installJob site e st)).
          h < length (timers (installJob site e st)) \<and> siteJobOf k (timers (installJob site e st) ! h)"
  proof (clarify)
    fix k h
    assume "(k, h) \<in> set (jobs (installJob site e st))"
    then have "(k, h) = (site_id site, length (timers st)) \<or> (k, h) \<in> set (jobs st)"
      using update_entries [of "site_id site" "length (timers st)" "jobs st"]
      by (auto simp add: installJob_def)
    then show "h < length (timers (installJob site e st)) \<and>
               siteJobOf k (timers (installJob site e st) ! h)"
    proof
      assume "(k, h) = (site_id site, length (timers st))"
      then show ?thesis by (simp add: installJob_new)
    next
      assume "(k, h) \<in> set (jobs st)"
      then have "h < length (timers st) \<and> siteJobOf k (timers st ! h)"
        using reg by (rule registered_entryD [rotated])
      then show ?thesis by (simp add: installJob_old)
    qed
  qed
next
  show "case globalScheduleJob (installJob site e st) of
          None \<Rightarrow> True
        | Some h \<Rightarrow> h < length (timers (installJob site e st)) \<and>
                    globalJob (timers (installJob site e st) ! h)"
    using reg by (auto simp add: registered_def installJob_old split: option.splits)
qed

section \<open>\<^verbatim>\<open>scheduleSite\<close> as removal and installation\<close>

lemma scheduleSitePre_removeJob: "scheduleSitePre site st = removeJob (site_id site) st"
  by (simp add: scheduleSitePre_def removeJob_def Let_def)

lemma scheduleSite_steps:
  "scheduleSite E db site st =
     (case storeFailure E ReadConfig of
        Some msg \<Rightarrow> (removeJob (site_id site) st, Some (StoreUnavailable msg))
      | None \<Rightarrow>
          if overridden db then (removeJob (site_id site) st, None)
          else
          (case scheduleCron site of
             None \<Rightarrow> (removeJob (site_id site) st, None)
           | Some e \<Rightarrow>
               if e = [] \<or> trim e = [] then (removeJob (site_id site) st, None)
               else if cronValidate E e
               then (installJob site e (removeJob (site_id site) st), None)
               else (removeJob (site_id site) st, Some (InvalidCron e))))"
  by (simp add: scheduleSite_def scheduleSitePre_def scheduleSitePost_def removeJob_def
      installJob_def overridden_def cronSchedule_def siteTimer_def startTimer_new Let_def
      split: option.splits)

lemma trim_empty_iff: "trim e = [] \<longleftrightarrow> (\<forall>c \<in> set e. isWhiteSpace c)"
proof
  assume "trim e = []"
  then have a: "\<forall>c \<in> set (dropWhile isWhiteSpace e). isWhiteSpace c"
    by (simp add: trim_def)
  show "\<forall>c \<in> set e. isWhiteSpace c"
  proof (rule ccontr)
    assume "\<not> (\<forall>c \<in> set e. isWhiteSpace c)"
    then have n: "dropWhile isWhiteSpace e \<noteq> []"
      by simp
    then have "\<not> isWhiteSpace (hd (dropWhile isWhiteSpace e))"
      by (rule hd_dropWhile)
    moreover from n have "hd (dropWhile isWhiteSpace e) \<in> set (dropWhile isWhiteSpace e)"
      by (rule hd_in_set)
    ultimately show False using a by blast
  qed
next
  assume "\<forall>c \<in> set e. isWhiteSpace c"
  then show "trim e = []"
    by (auto simp add: trim_def dest: set_dropWhileD)
qed

lemma noOwnSchedule_iff:
  "noOwnSchedule c \<longleftrightarrow> \<not> (\<exists>e. c = Some e \<and> (\<exists>x \<in> set e. \<not> isWhiteSpace x))"
  by (cases c) (auto simp add: noOwnSchedule_def trim_empty_iff)

text \<open>What one call of \<^verbatim>\<open>scheduleSite\<close> leaves for its own site id.\<close>

lemma scheduleSite_own:
  assumes "registered st"
  shows "liveSiteJobs (site_id site) (fst (scheduleSite E db site st)) =
           (if snd (scheduleSite E db site st) = None \<and> \<not> overridden db
               \<and> \<not> noOwnSchedule (scheduleCron site)
            then [length (timers st)] else [])"
    and "map_of (jobs (fst (scheduleSite E db site st))) (site_id site) =
           (if snd (scheduleSite E db site st) = None \<and> \<not> overridden db
               \<and> \<not> noOwnSchedule (scheduleCron site)
            then Some (length (timers st)) else None)"
  using removeJob_own [OF assms, of "site_id site"]
  by (auto simp add: scheduleSite_steps noOwnSchedule_def installJob_own installJob_map_of
      removeJob_map_of split: option.splits)

lemma scheduleSite_registered:
  assumes "registered st"
  shows "registered (fst (scheduleSite E db site st))"
  using removeJob_registered [OF assms, of "site_id site"] removeJob_own [OF assms, of "site_id site"]
  by (auto simp add: scheduleSite_steps installJob_registered split: option.splits)

lemma scheduleSite_other:
  assumes "registered st" and "k \<noteq> site_id site"
  shows "liveSiteJobs k (fst (scheduleSite E db site st)) = liveSiteJobs k st"
  using removeJob_other [OF assms]
  by (auto simp add: scheduleSite_steps installJob_other assms(2) split: option.splits)

lemma scheduleSite_liveGlobal:
  assumes "registered st"
  shows "liveGlobalJobs (fst (scheduleSite E db site st)) = liveGlobalJobs st"
    and "globalScheduleJob (fst (scheduleSite E db site st)) = globalScheduleJob st"
  using removeJob_liveGlobal [OF assms, of "site_id site"]
  by (auto simp add: scheduleSite_steps installJob_liveGlobal split: option.splits)

lemma scheduleSite_old_stopped:
  assumes "map_of (jobs st) (site_id site) = Some h" and "h < length (timers st)"
  shows "\<not> running (timers (fst (scheduleSite E db site st)) ! h)"
  using assms
  by (auto simp add: scheduleSite_steps installJob_old removeJob_running split: option.splits)

lemma scheduleSite_new_timer:
  assumes "snd (scheduleSite E db site st) = None" and "\<not> overridden db"
    and "scheduleCron site = Some e" and "\<not> noOwnSchedule (Some e)"
  shows "timers (fst (scheduleSite E db site st)) ! length (timers st) = siteTimer site e"
  using assms installJob_new [of site e "removeJob (site_id site) st"]
  by (auto simp add: scheduleSite_steps noOwnSchedule_def split: option.splits if_splits)

lemma scheduleSite_returns:
  "snd (scheduleSite E db site st) =
     (case storeFailure E ReadConfig of
        Some msg \<Rightarrow> Some (StoreUnavailable msg)
      | None \<Rightarrow>
          if overridden db \<or> noOwnSchedule (scheduleCron site) then None
          else (case scheduleCron site of
                  None \<Rightarrow> None
                | Some e \<Rightarrow> if cronValidate E e then None else Some (InvalidCron e)))"
  by (auto simp add: scheduleSite_steps noOwnSchedule_def split: option.splits)

lemma scheduleSite_other_entry:
  assumes "k \<noteq> site_id site"
  shows "map_of (jobs (fst (scheduleSite E db site st))) k = map_of (jobs st) k"
  using assms
  by (auto simp add: scheduleSite_steps installJob_map_of removeJob_map_of split: option.splits)

section \<open>One call of \<^verbatim>\<open>scheduleSite\<close> with nothing in between\<close>

text \<open>
  Let \<^verbatim>\<open>scheduleSite\<close> run from its first to its last statement with nothing
  interleaved, on a state in which the registries own the timers. Whatever the
  outcome, at most one live job is left for the site id, and the job the registry
  held for the id before the call is stopped. When the call returns normally, a live
  job for the id exists exactly when the stored global config is not both enabled
  and \<open>overrideIndividual\<close> and the site's schedule expression has a character that is
  not white space; that job is then the new timer, with the site's expression,
  entered in the registry under the id. When the call throws, no live job is left
  for the id. The registries still own the timers afterwards.
\<close>

lemma scheduleSite_uninterleaved:
  assumes "registered st"
  shows "length (liveSiteJobs (site_id site) (fst (scheduleSite E db site st))) \<le> 1
    \<and> (\<forall>h. map_of (jobs st) (site_id site) = Some h \<longrightarrow>
          \<not> running (timers (fst (scheduleSite E db site st)) ! h))
    \<and> (snd (scheduleSite E db site st) = None \<longrightarrow>
         (liveSiteJobs (site_id site) (fst (scheduleSite E db site st)) \<noteq> []
          \<longleftrightarrow> \<not> (case findFirstConfig db of None \<Rightarrow> False
                                             | Some g \<Rightarrow> enabled g \<and> overrideIndividual g)
              \<and> (\<exists>e. scheduleCron site = Some e \<and> (\<exists>c \<in> set e. \<not> isWhiteSpace c))))
    \<and> (\<forall>e. snd (scheduleSite E db site st) = None
           \<and> liveSiteJobs (site_id site) (fst (scheduleSite E db site st)) \<noteq> []
           \<and> scheduleCron site = Some e \<longrightarrow>
          liveSiteJobs (site_id site) (fst (scheduleSite E db site st)) = [length (timers st)]
          \<and> map_of (jobs (fst (scheduleSite E db site st))) (site_id site) =
              Some (length (timers st))
          \<and> timers (fst (scheduleSite E db site st)) ! length (timers st) =
              \<lparr>t_expr = e, t_timezone = Str (orDefault (site_timezone site) ''UTC''),
               t_callback = SiteCheck site, running = True\<rparr>)
    \<and> (liveSiteJobs (site_id site) (fst (scheduleSite E db site st)) = [] \<longrightarrow>
         map_of (jobs (fst (scheduleSite E db site st))) (site_id site) = None)
    \<and> (snd (scheduleSite E db site st) \<noteq> None \<longrightarrow>
         liveSiteJobs (site_id site) (fst (scheduleSite E db site st)) = [])
    \<and> registered (fst (scheduleSite E db site st))"
proof (intro conjI allI impI)
  note own = scheduleSite_own [OF assms, where site = site and E = E and db = db]
  show "length (liveSiteJobs (site_id site) (fst (scheduleSite E db site st))) \<le> 1"
    by (simp add: own(1))
  show "\<not> running (timers (fst (scheduleSite E db site st)) ! h)"
    if "map_of (jobs st) (site_id site) = Some h" for h
    using that registered_jobsD [OF assms that] by (simp add: scheduleSite_old_stopped)
  show "liveSiteJobs (site_id site) (fst (scheduleSite E db site st)) \<noteq> []
          \<longleftrightarrow> \<not> (case findFirstConfig db of None \<Rightarrow> False
                                             | Some g \<Rightarrow> enabled g \<and> overrideIndividual g)
              \<and> (\<exists>e. scheduleCron site = Some e \<and> (\<exists>c \<in> set e. \<not> isWhiteSpace c))"
    if "snd (scheduleSite E db site st) = None"
    using that by (simp add: own(1) noOwnSchedule_iff overridden_def)
  show "map_of (jobs (fst (scheduleSite E db site st))) (site_id site) = None"
    if "liveSiteJobs (site_id site) (fst (scheduleSite E db site st)) = []"
    using that by (simp add: own split: if_splits)
  show "liveSiteJobs (site_id site) (fst (scheduleSite E db site st)) = []"
    if "snd (scheduleSite E db site st) \<noteq> None"
    using that by (simp add: own(1))
  show "registered (fst (scheduleSite E db site st))"
    by (rule scheduleSite_registered [OF assms])
next
  fix e
  assume a: "snd (scheduleSite E db site st) = None
           \<and> liveSiteJobs (site_id site) (fst (scheduleSite E db site st)) \<noteq> []
           \<and> scheduleCron site = Some e"
  note own = scheduleSite_own [OF assms, where site = site and E = E and db = db]
  from a have c: "\<not> overridden db" "\<not> noOwnSchedule (Some e)"
    by (auto simp add: own(1) split: if_splits)
  from a c show "liveSiteJobs (site_id site) (fst (scheduleSite E db site st)) = [length (timers st)]"
    by (simp add: own(1))
  from a c show "map_of (jobs (fst (scheduleSite E db site st))) (site_id site) =
              Some (length (timers st))"
    by (simp add: own(2))
  from a c show "timers (fst (scheduleSite E db site st)) ! length (timers st) =
              \<lparr>t_expr = e, t_timezone = Str (orDefault (site_timezone site) ''UTC''),
               t_callback = SiteCheck site, running = True\<rparr>"
    using scheduleSite_new_timer [of E db site st e] by (simp add: siteTimer_def)
qed

section \<open>Rescheduling every site\<close>

lemma scheduleEach_sound:
  assumes "registered st" and "distinct (map site_id sites)"
    and "scheduleEach E db sites st = (st', None)"
  shows "registered st'
    \<and> liveGlobalJobs st' = liveGlobalJobs st
    \<and> globalScheduleJob st' = globalScheduleJob st
    \<and> (\<forall>s \<in> set sites.
          length (liveSiteJobs (site_id s) st') =
            (if \<not> overridden db \<and> \<not> noOwnSchedule (scheduleCron s) then 1 else 0)
          \<and> map_of (jobs st') (site_id s) =
              (case liveSiteJobs (site_id s) st' of [] \<Rightarrow> None | h # hs \<Rightarrow> Some h))
    \<and> (\<forall>k. k \<notin> site_id ` set sites \<longrightarrow>
          liveSiteJobs k st' = liveSiteJobs k st \<and> map_of (jobs st') k = map_of (jobs st) k)"
  using assms
proof (induction sites arbitrary: st)
  case Nil
  then show ?case by simp
next
  case (Cons s rest)
  let ?st1 = "fst (scheduleSite E db s st)"
  from Cons.prems(3) have ok: "snd (scheduleSite E db s st) = None"
    and rest: "scheduleEach E db rest ?st1 = (st', None)"
    by (auto split: prod.splits option.splits)
  have reg1: "registered ?st1"
    by (rule scheduleSite_registered [OF Cons.prems(1)])
  from Cons.prems(2) have d: "distinct (map site_id rest)" and fresh: "site_id s \<notin> site_id ` set rest"
    by auto
  note IH = Cons.IH [OF reg1 d rest]
  note own = scheduleSite_own [OF Cons.prems(1), where site = s and E = E and db = db]
  have s: "length (liveSiteJobs (site_id s) st') =
             (if \<not> overridden db \<and> \<not> noOwnSchedule (scheduleCron s) then 1 else 0)
           \<and> map_of (jobs st') (site_id s) =
               (case liveSiteJobs (site_id s) st' of [] \<Rightarrow> None | h # hs \<Rightarrow> Some h)"
    using IH fresh ok by (simp add: own)
  have others: "liveSiteJobs k st' = liveSiteJobs k st \<and> map_of (jobs st') k = map_of (jobs st) k"
    if "k \<notin> site_id ` set (s # rest)" for k
  proof -
    from that have k: "k \<noteq> site_id s" "k \<notin> site_id ` set rest" by auto
    from k(2) IH have "liveSiteJobs k st' = liveSiteJobs k ?st1"
      and "map_of (jobs st') k = map_of (jobs ?st1) k" by auto
    moreover have "liveSiteJobs k ?st1 = liveSiteJobs k st"
      by (rule scheduleSite_other [OF Cons.prems(1) k(1)])
    moreover have "map_of (jobs ?st1) k = map_of (jobs st) k"
      using k(1) by (rule scheduleSite_other_entry)
    ultimately show ?thesis by simp
  qed
  from IH s others show ?case
    by (simp add: scheduleSite_liveGlobal [OF Cons.prems(1)])
qed

section \<open>Stopping every individual job\<close>

lemma stopEntries_shape:
  "length (timers (stopEntries es st)) = length (timers st)
   \<and> globalScheduleJob (stopEntries es st) = globalScheduleJob st
   \<and> jobs (stopEntries es st) = filter (\<lambda>p. fst p \<notin> fst ` set es) (jobs st)
   \<and> (\<forall>h < length (timers st).
        t_callback (timers (stopEntries es st) ! h) = t_callback (timers st ! h)
        \<and> running (timers (stopEntries es st) ! h) =
            (running (timers st ! h) \<and> h \<notin> snd ` set es))"
proof (induction es st rule: stopEntries.induct)
  case (1 st)
  show ?case by simp
next
  case (2 key job rest st)
  let ?st1 = "st\<lparr>timers := stopTimer job (timers st), jobs := AList.delete key (jobs st)\<rparr>"
  have j: "filter (\<lambda>p. fst p \<notin> fst ` set rest) (AList.delete key (jobs st)) =
           filter (\<lambda>p. fst p \<notin> fst ` set ((key, job) # rest)) (jobs st)"
    by (auto simp add: AList.delete_eq intro: filter_cong)
  have t: "t_callback (stopTimer job (timers st) ! h) = t_callback (timers st ! h)
           \<and> running (stopTimer job (timers st) ! h) = (running (timers st ! h) \<and> h \<noteq> job)"
    if "h < length (timers st)" for h
    using that by (simp add: nth_stopTimer)
  from "2.IH" t j show ?case
    by auto
qed

lemma stopAllIndividualJobs_sound:
  assumes "registered st"
  shows "jobs (snd (stopAllIndividualJobs st)) = []
    \<and> fst (stopAllIndividualJobs st) = length (jobs st)
    \<and> (\<forall>k. liveSiteJobs k (snd (stopAllIndividualJobs st)) = [])
    \<and> liveGlobalJobs (snd (stopAllIndividualJobs st)) = liveGlobalJobs st
    \<and> globalScheduleJob (snd (stopAllIndividualJobs st)) = globalScheduleJob st
    \<and> registered (snd (stopAllIndividualJobs st))"
proof -
  let ?st' = "stopEntries (jobs st) st"
  note sh = stopEntries_shape [of "jobs st" st]
  have len: "length (timers ?st') = length (timers st)"
    using sh by simp
  have cb: "t_callback (timers ?st' ! h) = t_callback (timers st ! h)"
    and run: "running (timers ?st' ! h) = (running (timers st ! h) \<and> h \<notin> snd ` set (jobs st))"
    if "h < length (timers st)" for h
    using sh that by simp_all
  have kind: "siteJobOf k (timers ?st' ! h) = siteJobOf k (timers st ! h)"
    "globalJob (timers ?st' ! h) = globalJob (timers st ! h)"
    if "h < length (timers st)" for h k
    using cb [OF that] by (simp_all add: siteJobOf_def globalJob_def)
  have empty: "jobs ?st' = []"
    using sh by (auto simp add: filter_empty_conv)
  have site: "liveSiteJobs k ?st' = []" for k
    unfolding liveSiteJobs_def len
  proof (rule filter_upt_empty)
    fix h
    assume h: "h < length (timers st)"
    show "\<not> (running (timers ?st' ! h) \<and> siteJobOf k (timers ?st' ! h))"
    proof
      assume a: "running (timers ?st' ! h) \<and> siteJobOf k (timers ?st' ! h)"
      with h have "running (timers st ! h)" "siteJobOf k (timers st ! h)" "h \<notin> snd ` set (jobs st)"
        by (simp_all add: run kind)
      moreover from this have "map_of (jobs st) k = Some h"
        using assms h by (simp add: registered_siteD)
      then have "(k, h) \<in> set (jobs st)"
        by (rule map_of_SomeD)
      ultimately show False
        by force
    qed
  qed
  have glob: "liveGlobalJobs ?st' = liveGlobalJobs st"
    unfolding liveGlobalJobs_def len
  proof (rule filter_upt_cong)
    fix h
    assume h: "h < length (timers st)"
    have "\<not> globalJob (timers st ! h)" if "h \<in> snd ` set (jobs st)"
    proof -
      from that obtain k where "(k, h) \<in> set (jobs st)" by force
      then have "siteJobOf k (timers st ! h)"
        using assms by (simp add: registered_entryD)
      then show ?thesis by (rule siteJobOf_not_global)
    qed
    with h show "(running (timers ?st' ! h) \<and> globalJob (timers ?st' ! h)) =
                 (running (timers st ! h) \<and> globalJob (timers st ! h))"
      by (auto simp add: run kind)
  qed
  have reg: "registered ?st'"
    unfolding registered_def
  proof (intro conjI allI impI)
    fix h
    assume h: "h < length (timers ?st')" and r: "running (timers ?st' ! h)"
    then have h': "h < length (timers st)" and r': "running (timers st ! h)"
      and n: "h \<notin> snd ` set (jobs st)"
      by (simp_all add: len run)
    have "\<not> siteJobOf k (timers st ! h)" for k
    proof
      assume "siteJobOf k (timers st ! h)"
      then have "map_of (jobs st) k = Some h"
        using assms h' r' by (simp add: registered_siteD)
      then have "(k, h) \<in> set (jobs st)"
        by (rule map_of_SomeD)
      with n show False by force
    qed
    then obtain c where c: "t_callback (timers st ! h) = GlobalCheck c"
      by (cases "t_callback (timers st ! h)") (auto simp add: siteJobOf_def)
    then have "globalJob (timers st ! h)"
      by (simp add: globalJob_def)
    then have "globalScheduleJob st = Some h"
      using assms h' r' by (simp add: registered_globalD)
    with c h' sh show "case t_callback (timers ?st' ! h) of
            SiteCheck s \<Rightarrow> map_of (jobs ?st') (site_id s) = Some h
          | GlobalCheck c \<Rightarrow> globalScheduleJob ?st' = Some h"
      by (simp add: cb)
  next
    show "\<forall>(k, h) \<in> set (jobs ?st'). h < length (timers ?st') \<and> siteJobOf k (timers ?st' ! h)"
      by (simp add: empty)
  next
    show "case globalScheduleJob ?st' of
            None \<Rightarrow> True
          | Some h \<Rightarrow> h < length (timers ?st') \<and> globalJob (timers ?st' ! h)"
      using assms sh by (auto simp add: registered_def len kind split: option.splits)
  qed
  from empty site glob reg sh show ?thesis
    by (simp add: stopAllIndividualJobs_def Let_def)
qed

section \<open>The global job\<close>

lemma stopGlobal_shape [simp]:
  "length (timers (stopGlobal st)) = length (timers st)"
  "jobs (stopGlobal st) = jobs st"
  "globalScheduleJob (stopGlobal st) = None"
  by (simp_all add: stopGlobal_def split: option.splits)

lemma stopGlobal_timer:
  "h < length (timers st) \<Longrightarrow>
   t_callback (timers (stopGlobal st) ! h) = t_callback (timers st ! h) \<and>
   running (timers (stopGlobal st) ! h) =
     (running (timers st ! h) \<and> globalScheduleJob st \<noteq> Some h)"
  by (auto simp add: stopGlobal_def nth_stopTimer split: option.splits)

lemma stopGlobal_kind:
  "h < length (timers st) \<Longrightarrow>
   siteJobOf k (timers (stopGlobal st) ! h) = siteJobOf k (timers st ! h) \<and>
   globalJob (timers (stopGlobal st) ! h) = globalJob (timers st ! h)"
  by (simp add: siteJobOf_def globalJob_def stopGlobal_timer)

lemma stopGlobal_liveGlobal:
  assumes "registered st"
  shows "liveGlobalJobs (stopGlobal st) = []"
  unfolding liveGlobalJobs_def
proof (rule filter_upt_empty)
  fix h
  assume "h < length (timers (stopGlobal st))"
  then have h: "h < length (timers st)" by simp
  show "\<not> (running (timers (stopGlobal st) ! h) \<and> globalJob (timers (stopGlobal st) ! h))"
    using registered_globalD [OF assms h] h
    by (auto simp add: stopGlobal_timer stopGlobal_kind)
qed

lemma stopGlobal_liveSite:
  assumes "registered st"
  shows "liveSiteJobs k (stopGlobal st) = liveSiteJobs k st"
  unfolding liveSiteJobs_def stopGlobal_shape
proof (rule filter_upt_cong)
  fix h
  assume h: "h < length (timers st)"
  have "\<not> siteJobOf k (timers st ! h)" if "globalScheduleJob st = Some h"
    using assms that by (auto simp add: registered_def dest: siteJobOf_not_global)
  with h show "(running (timers (stopGlobal st) ! h) \<and> siteJobOf k (timers (stopGlobal st) ! h)) =
               (running (timers st ! h) \<and> siteJobOf k (timers st ! h))"
    by (auto simp add: stopGlobal_timer stopGlobal_kind)
qed

lemma stopGlobal_registered:
  assumes "registered st"
  shows "registered (stopGlobal st)"
  unfolding registered_def
proof (intro conjI allI impI)
  fix h
  assume "h < length (timers (stopGlobal st))" and r: "running (timers (stopGlobal st) ! h)"
  then have h: "h < length (timers st)" and r': "running (timers st ! h)"
    and n: "globalScheduleJob st \<noteq> Some h"
    by (simp_all add: stopGlobal_timer)
  from registered_globalD [OF assms h r'] n have "\<not> globalJob (timers st ! h)"
    by auto
  then obtain s where s: "t_callback (timers st ! h) = SiteCheck s"
    by (cases "t_callback (timers st ! h)") (auto simp add: globalJob_def)
  then have "siteJobOf (site_id s) (timers st ! h)"
    by (simp add: siteJobOf_def)
  then have "map_of (jobs st) (site_id s) = Some h"
    using assms h r' by (simp add: registered_siteD)
  with s h show "case t_callback (timers (stopGlobal st) ! h) of
          SiteCheck s \<Rightarrow> map_of (jobs (stopGlobal st)) (site_id s) = Some h
        | GlobalCheck c \<Rightarrow> globalScheduleJob (stopGlobal st) = Some h"
    by (simp add: stopGlobal_timer)
next
  show "\<forall>(k, h) \<in> set (jobs (stopGlobal st)).
          h < length (timers (stopGlobal st)) \<and> siteJobOf k (timers (stopGlobal st) ! h)"
    using assms by (auto simp add: stopGlobal_kind dest: registered_entryD)
next
  show "case globalScheduleJob (stopGlobal st) of
          None \<Rightarrow> True
        | Some h \<Rightarrow> h < length (timers (stopGlobal st)) \<and> globalJob (timers (stopGlobal st) ! h)"
    by simp
qed

lemma installGlobal_shape [simp]:
  "length (timers (installGlobal c st)) = Suc (length (timers st))"
  "jobs (installGlobal c st) = jobs st"
  "globalScheduleJob (installGlobal c st) = Some (length (timers st))"
  "timers (installGlobal c st) ! length (timers st) = globalTimer c"
  by (simp_all add: installGlobal_def)

lemma installGlobal_old:
  "h < length (timers st) \<Longrightarrow> timers (installGlobal c st) ! h = timers st ! h"
  by (simp add: installGlobal_def nth_append)

lemma globalTimer_kind [simp]:
  "\<not> siteJobOf k (globalTimer c)" "globalJob (globalTimer c)" "running (globalTimer c)"
  by (simp_all add: globalTimer_def siteJobOf_def globalJob_def)

lemma installGlobal_liveGlobal:
  assumes "liveGlobalJobs st = []"
  shows "liveGlobalJobs (installGlobal c st) = [length (timers st)]"
proof -
  have "filter (\<lambda>h. running (timers (installGlobal c st) ! h) \<and>
                     globalJob (timers (installGlobal c st) ! h)) [0..<length (timers st)] =
        filter (\<lambda>h. running (timers st ! h) \<and> globalJob (timers st ! h)) [0..<length (timers st)]"
    by (rule filter_upt_cong) (simp add: installGlobal_old)
  with assms show ?thesis
    by (simp add: liveGlobalJobs_def)
qed

lemma installGlobal_liveSite: "liveSiteJobs k (installGlobal c st) = liveSiteJobs k st"
proof -
  have "filter (\<lambda>h. running (timers (installGlobal c st) ! h) \<and>
                     siteJobOf k (timers (installGlobal c st) ! h)) [0..<length (timers st)] =
        filter (\<lambda>h. running (timers st ! h) \<and> siteJobOf k (timers st ! h)) [0..<length (timers st)]"
    by (rule filter_upt_cong) (simp add: installGlobal_old)
  then show ?thesis
    by (simp add: liveSiteJobs_def)
qed

lemma installGlobal_registered:
  assumes reg: "registered st" and none: "liveGlobalJobs st = []"
  shows "registered (installGlobal c st)"
  unfolding registered_def
proof (intro conjI allI impI)
  fix h
  assume h: "h < length (timers (installGlobal c st))"
    and r: "running (timers (installGlobal c st) ! h)"
  show "case t_callback (timers (installGlobal c st) ! h) of
          SiteCheck s \<Rightarrow> map_of (jobs (installGlobal c st)) (site_id s) = Some h
        | GlobalCheck c' \<Rightarrow> globalScheduleJob (installGlobal c st) = Some h"
  proof (cases "h = length (timers st)")
    case True
    then show ?thesis by (simp add: globalTimer_def)
  next
    case False
    with h have h': "h < length (timers st)" by simp
    with r have r': "running (timers st ! h)" by (simp add: installGlobal_old)
    from none h' r' have "\<not> globalJob (timers st ! h)"
      by (auto simp add: liveGlobalJobs_def filter_empty_conv)
    then obtain s where s: "t_callback (timers st ! h) = SiteCheck s"
      by (cases "t_callback (timers st ! h)") (auto simp add: globalJob_def)
    then have "siteJobOf (site_id s) (timers st ! h)"
      by (simp add: siteJobOf_def)
    then have "map_of (jobs st) (site_id s) = Some h"
      using reg h' r' by (simp add: registered_siteD)
    with s h' show ?thesis
      by (simp add: installGlobal_old)
  qed
next
  show "\<forall>(k, h) \<in> set (jobs (installGlobal c st)).
          h < length (timers (installGlobal c st)) \<and> siteJobOf k (timers (installGlobal c st) ! h)"
  proof (clarify)
    fix k h
    assume "(k, h) \<in> set (jobs (installGlobal c st))"
    then have "h < length (timers st) \<and> siteJobOf k (timers st ! h)"
      using reg by (simp add: registered_entryD)
    then show "h < length (timers (installGlobal c st)) \<and>
               siteJobOf k (timers (installGlobal c st) ! h)"
      by (simp add: installGlobal_old)
  qed
next
  show "case globalScheduleJob (installGlobal c st) of
          None \<Rightarrow> True
        | Some h \<Rightarrow> h < length (timers (installGlobal c st)) \<and>
                    globalJob (timers (installGlobal c st) ! h)"
    by simp
qed

lemma scheduleGlobalTaskPre_stopGlobal: "scheduleGlobalTaskPre st = stopGlobal st"
  by (simp add: scheduleGlobalTaskPre_def stopGlobal_def)

lemma scheduleGlobalTask_steps:
  "scheduleGlobalTask E db config st =
     (case config of
        None \<Rightarrow> rescheduleIndividual E db (stopGlobal st)
      | Some c \<Rightarrow>
          if \<not> enabled c then rescheduleIndividual E db (stopGlobal st)
          else
          (case (if overrideIndividual c
                 then (snd (stopAllIndividualJobs (stopGlobal st)), None)
                 else rescheduleIndividual E db (stopGlobal st)) of
             (st2, Some e) \<Rightarrow> (st2, Some e)
           | (st2, None) \<Rightarrow>
               if cronValidate E (dailyCron c) then (installGlobal c st2, None)
               else (st2, Some (InvalidCron (dailyCron c)))))"
  by (simp add: scheduleGlobalTask_def scheduleGlobalTaskPre_def scheduleGlobalTaskPost_def
      stopGlobal_def installGlobal_def globalTimer_def cronSchedule_def startTimer_new Let_def
      split: option.splits prod.splits)

lemma stopAllIndividualJobs_length:
  "length (timers (snd (stopAllIndividualJobs st))) = length (timers st)"
  using stopEntries_shape [of "jobs st" st] by (simp add: stopAllIndividualJobs_def Let_def)

text \<open>
  Let \<^verbatim>\<open>scheduleGlobalTask\<close> run from its first to its last statement with nothing
  interleaved, on a state in which the registries own the timers, and return
  normally. If the config passed is the stored one, is absent or has
  \<open>enabled = false\<close>, and the stored sites have distinct ids, then no global job is
  left (neither in the variable nor running) and every stored site with a schedule
  expression of its own has exactly one live job, the one the registry holds for its
  id (a site without one has none). If the config has \<open>enabled\<close> and
  \<open>overrideIndividual\<close>, then the site registry is empty and no site job is running for
  any id, and the only running global job is the new timer, with the expression
  \<^verbatim>\<open>`${minute} ${hour} * * *`\<close>, held in the variable.
\<close>

lemma scheduleGlobalTask_uninterleaved:
  assumes "registered st" and "scheduleGlobalTask E db config st = (st', None)"
  shows "((case config of None \<Rightarrow> True | Some c \<Rightarrow> \<not> enabled c)
            \<and> findFirstConfig db = config \<and> distinct (map site_id (siteRows db))
          \<longrightarrow> globalScheduleJob st' = None \<and> liveGlobalJobs st' = []
              \<and> (\<forall>s \<in> set (siteRows db).
                    length (liveSiteJobs (site_id s) st') =
                      (if noOwnSchedule (scheduleCron s) then 0 else 1)
                    \<and> map_of (jobs st') (site_id s) =
                        (case liveSiteJobs (site_id s) st' of [] \<Rightarrow> None | h # hs \<Rightarrow> Some h)))
    \<and> (\<forall>c. config = Some c \<and> enabled c \<and> overrideIndividual c
          \<longrightarrow> jobs st' = [] \<and> (\<forall>k. liveSiteJobs k st' = [])
              \<and> liveGlobalJobs st' = [length (timers st)]
              \<and> globalScheduleJob st' = Some (length (timers st))
              \<and> timers st' ! length (timers st) =
                  \<lparr>t_expr = showInt (minute c) @ '' '' @ showInt (hour c) @ '' * * *'',
                   t_timezone = (case cfg_timezone c of
                                   Undefined \<Rightarrow> Str ''Asia/Shanghai''
                                 | Null \<Rightarrow> Null | Str z \<Rightarrow> Str z),
                   t_callback = GlobalCheck c, running = True\<rparr>)"
proof (intro conjI allI impI)
  assume a: "(case config of None \<Rightarrow> True | Some c \<Rightarrow> \<not> enabled c)
            \<and> findFirstConfig db = config \<and> distinct (map site_id (siteRows db))"
  then have no: "\<not> overridden db"
    by (auto simp add: overridden_def split: option.splits)
  from a assms(2) have "rescheduleIndividual E db (stopGlobal st) = (st', None)"
    by (auto simp add: scheduleGlobalTask_steps split: option.splits)
  then have each: "scheduleEach E db (siteRows db) (stopGlobal st) = (st', None)"
    by (auto simp add: rescheduleIndividual_def split: option.splits)
  from a have d: "distinct (map site_id (siteRows db))" by simp
  note snd = scheduleEach_sound [OF stopGlobal_registered [OF assms(1)] d each]
  from snd show "globalScheduleJob st' = None" by simp
  from snd show "liveGlobalJobs st' = []"
    by (simp add: stopGlobal_liveGlobal [OF assms(1)])
  from snd no show "\<forall>s \<in> set (siteRows db).
                    length (liveSiteJobs (site_id s) st') =
                      (if noOwnSchedule (scheduleCron s) then 0 else 1)
                    \<and> map_of (jobs st') (site_id s) =
                        (case liveSiteJobs (site_id s) st' of [] \<Rightarrow> None | h # hs \<Rightarrow> Some h)"
    by simp
next
  fix c
  assume a: "config = Some c \<and> enabled c \<and> overrideIndividual c"
  let ?st2 = "snd (stopAllIndividualJobs (stopGlobal st))"
  from a assms(2) have st': "st' = installGlobal c ?st2"
    by (auto simp add: scheduleGlobalTask_steps split: if_splits)
  note all = stopAllIndividualJobs_sound [OF stopGlobal_registered [OF assms(1)]]
  have len: "length (timers ?st2) = length (timers st)"
    by (simp add: stopAllIndividualJobs_length)
  have g: "liveGlobalJobs ?st2 = []"
    using all by (simp add: stopGlobal_liveGlobal [OF assms(1)])
  from all show "jobs st' = []"
    by (simp add: st')
  from all show "liveSiteJobs k st' = []" for k
    by (simp add: st' installGlobal_liveSite)
  from g show "liveGlobalJobs st' = [length (timers st)]"
    by (simp add: st' installGlobal_liveGlobal len)
  show "globalScheduleJob st' = Some (length (timers st))"
    by (simp add: st' len)
  have "timers st' ! length (timers ?st2) = globalTimer c"
    unfolding st' by (rule installGlobal_shape(4))
  then show "timers st' ! length (timers st) =
                  \<lparr>t_expr = showInt (minute c) @ '' '' @ showInt (hour c) @ '' * * *'',
                   t_timezone = (case cfg_timezone c of
                                   Undefined \<Rightarrow> Str ''Asia/Shanghai''
                                 | Null \<Rightarrow> Null | Str z \<Rightarrow> Str z),
                   t_callback = GlobalCheck c, running = True\<rparr>"
    by (simp add: len globalTimer_def dailyCron_def)
qed

section \<open>Calls with nothing in between keep the registries in charge, and return\<close>

lemma scheduleEach_registered:
  assumes "registered st"
  shows "registered (fst (scheduleEach E db sites st))
    \<and> liveGlobalJobs (fst (scheduleEach E db sites st)) = liveGlobalJobs st"
  using assms
proof (induction sites arbitrary: st)
  case Nil
  then show ?case by simp
next
  case (Cons s rest)
  note reg1 = scheduleSite_registered [OF Cons.prems, of E db s]
  note glob = scheduleSite_liveGlobal(1) [OF Cons.prems, of E db s]
  show ?case
  proof (cases "snd (scheduleSite E db s st)")
    case None
    then have "scheduleEach E db (s # rest) st = scheduleEach E db rest (fst (scheduleSite E db s st))"
      by (cases "scheduleSite E db s st") simp
    with Cons.IH [OF reg1] glob show ?thesis by simp
  next
    case (Some e)
    then have "scheduleEach E db (s # rest) st = (fst (scheduleSite E db s st), Some e)"
      by (cases "scheduleSite E db s st") simp
    with reg1 glob show ?thesis by simp
  qed
qed

lemma scheduleGlobalTask_registered:
  assumes "registered st"
  shows "registered (fst (scheduleGlobalTask E db config st))"
proof -
  note sg = stopGlobal_registered [OF assms]
  note none = stopGlobal_liveGlobal [OF assms]
  have re: "registered (fst (rescheduleIndividual E db (stopGlobal st)))
            \<and> liveGlobalJobs (fst (rescheduleIndividual E db (stopGlobal st))) = []"
    using scheduleEach_registered [OF sg, of E db "siteRows db"] sg none
    by (simp add: rescheduleIndividual_def split: option.splits)
  have sa: "registered (snd (stopAllIndividualJobs (stopGlobal st)))
            \<and> liveGlobalJobs (snd (stopAllIndividualJobs (stopGlobal st))) = []"
    using stopAllIndividualJobs_sound [OF sg] none by simp
  show ?thesis
  proof (cases config)
    case None
    with re show ?thesis by (simp add: scheduleGlobalTask_steps)
  next
    case (Some c)
    show ?thesis
    proof (cases "enabled c")
      case False
      with Some re show ?thesis by (simp add: scheduleGlobalTask_steps)
    next
      case True
      show ?thesis
      proof (cases "overrideIndividual c")
        case o: True
        with Some True sa show ?thesis
          by (simp add: scheduleGlobalTask_steps installGlobal_registered)
      next
        case o: False
        obtain st2 err where r: "rescheduleIndividual E db (stopGlobal st) = (st2, err)"
          by (cases "rescheduleIndividual E db (stopGlobal st)")
        with re have "registered st2" "liveGlobalJobs st2 = []" by simp_all
        with Some True o r show ?thesis
          by (cases err) (simp_all add: scheduleGlobalTask_steps installGlobal_registered)
      qed
    qed
  qed
qed

lemma scheduleEach_returns:
  assumes "storeFailure E ReadConfig = None"
    and "\<forall>s \<in> set sites. overridden db \<or> noOwnSchedule (scheduleCron s)
           \<or> (\<exists>e. scheduleCron s = Some e \<and> cronValidate E e)"
  shows "snd (scheduleEach E db sites st) = None"
  using assms(2)
proof (induction sites arbitrary: st)
  case Nil
  show ?case by simp
next
  case (Cons s rest)
  from Cons.prems assms(1) have "snd (scheduleSite E db s st) = None"
    by (auto simp add: scheduleSite_returns)
  then have "scheduleEach E db (s # rest) st = scheduleEach E db rest (fst (scheduleSite E db s st))"
    by (cases "scheduleSite E db s st") simp
  with Cons show ?case by simp
qed

lemma scheduleGlobalTask_returns:
  assumes "storeFailure E ReadConfig = None" and "storeFailure E ReadSites = None"
    and "\<forall>s \<in> set (siteRows db). overridden db \<or> noOwnSchedule (scheduleCron s)
           \<or> (\<exists>e. scheduleCron s = Some e \<and> cronValidate E e)"
    and "\<forall>c. config = Some c \<longrightarrow> cronValidate E (dailyCron c)"
  shows "snd (scheduleGlobalTask E db config st) = None"
proof -
  have "snd (rescheduleIndividual E db (stopGlobal st)) = None"
    using scheduleEach_returns [OF assms(1) assms(3)] assms(2)
    by (simp add: rescheduleIndividual_def)
  with assms(4) show ?thesis
    by (auto simp add: scheduleGlobalTask_steps split: option.splits prod.splits)
qed

section \<open>Overlapping calls\<close>

text \<open>
  C4 fails on the code. \<^verbatim>\<open>onSiteUpdated\<close> does not await \<^verbatim>\<open>scheduleSite\<close>, so two saves
  of one site overlap: both calls run their first segment (nothing to stop), then
  both continue after the config read. Each call returns normally and installs its
  timer; the second \<^verbatim>\<open>jobs.set\<close> overwrites the entry of the first without stopping
  it. Two jobs are live for the one site id, and the registry holds only the second.
  Run one after the other, the same two calls leave one live job.
\<close>

theorem overlapping_upserts_leave_two_jobs:
  "site_id (siteA\<lparr>scheduleCron := Some ''0 6 * * *''\<rparr>) = site_id siteA
   \<and> snd (scheduleSitePost env0 db0 siteA
          (runSegments env0 db0
             [SitePre siteA, SitePre (siteA\<lparr>scheduleCron := Some ''0 6 * * *''\<rparr>)]
             initialScheduler)) = None
   \<and> snd (scheduleSitePost env0 db0 (siteA\<lparr>scheduleCron := Some ''0 6 * * *''\<rparr>)
          (runSegments env0 db0
             [SitePre siteA, SitePre (siteA\<lparr>scheduleCron := Some ''0 6 * * *''\<rparr>),
              SitePost siteA]
             initialScheduler)) = None
   \<and> liveSiteJobs ''a''
        (runSegments env0 db0
           [SitePre siteA, SitePre (siteA\<lparr>scheduleCron := Some ''0 6 * * *''\<rparr>),
            SitePost siteA, SitePost (siteA\<lparr>scheduleCron := Some ''0 6 * * *''\<rparr>)]
           initialScheduler) = [0, 1]
   \<and> jobs
        (runSegments env0 db0
           [SitePre siteA, SitePre (siteA\<lparr>scheduleCron := Some ''0 6 * * *''\<rparr>),
            SitePost siteA, SitePost (siteA\<lparr>scheduleCron := Some ''0 6 * * *''\<rparr>)]
           initialScheduler) = [(''a'', 1)]
   \<and> liveSiteJobs ''a''
        (runSegments env0 db0
           [SitePre siteA, SitePost siteA,
            SitePre (siteA\<lparr>scheduleCron := Some ''0 6 * * *''\<rparr>),
            SitePost (siteA\<lparr>scheduleCron := Some ''0 6 * * *''\<rparr>)]
           initialScheduler) = [1]"
  by code_simp

text \<open>After the two overlapping saves the registries no longer own the timers.\<close>

lemma overlap_breaks_ownership:
  "\<not> registered
        (runSegments env0 db0
           [SitePre siteA, SitePre (siteA\<lparr>scheduleCron := Some ''0 6 * * *''\<rparr>),
            SitePost siteA, SitePost (siteA\<lparr>scheduleCron := Some ''0 6 * * *''\<rparr>)]
           initialScheduler)"
proof
  let ?st = "runSegments env0 db0
           [SitePre siteA, SitePre (siteA\<lparr>scheduleCron := Some ''0 6 * * *''\<rparr>),
            SitePost siteA, SitePost (siteA\<lparr>scheduleCron := Some ''0 6 * * *''\<rparr>)]
           initialScheduler"
  assume r: "registered ?st"
  have e: "0 < length (timers ?st)" "running (timers ?st ! 0)" "siteJobOf ''a'' (timers ?st ! 0)"
    "map_of (jobs ?st) ''a'' = Some 1"
    by code_simp+
  from registered_siteD [OF r e(1) e(2) e(3)] e(4) show False
    by simp
qed

text \<open>
  C3 fails on the code, in both of its parts. First part: two saves of an enabled
  config without override overlap; both clear the variable, both continue after
  \<^verbatim>\<open>findMany\<close>, and the second assignment to \<^verbatim>\<open>globalScheduleJob\<close> overwrites the first
  job without stopping it. A later save of the disabled config, run alone and
  returning normally, stops only the job in the variable: the first global job
  keeps running. Second part: after the two overlapping saves of a site above, a save
  of the config with \<open>overrideIndividual\<close>, run alone and returning normally, stops
  the jobs of the registry only: the overwritten job of the site keeps running.
\<close>

theorem reconfigure_leaves_overwritten_jobs:
  "snd (scheduleGlobalTask env0 (db0\<lparr>configRows := [cfg0\<lparr>enabled := False\<rparr>]\<rparr>)
          (Some (cfg0\<lparr>enabled := False\<rparr>))
          (runSegments env0 db0
             [GlobalPre, GlobalPre, GlobalPost (Some cfg0), GlobalPost (Some cfg0)]
             initialScheduler)) = None
   \<and> globalScheduleJob
        (fst (scheduleGlobalTask env0 (db0\<lparr>configRows := [cfg0\<lparr>enabled := False\<rparr>]\<rparr>)
          (Some (cfg0\<lparr>enabled := False\<rparr>))
          (runSegments env0 db0
             [GlobalPre, GlobalPre, GlobalPost (Some cfg0), GlobalPost (Some cfg0)]
             initialScheduler))) = None
   \<and> liveGlobalJobs
        (fst (scheduleGlobalTask env0 (db0\<lparr>configRows := [cfg0\<lparr>enabled := False\<rparr>]\<rparr>)
          (Some (cfg0\<lparr>enabled := False\<rparr>))
          (runSegments env0 db0
             [GlobalPre, GlobalPre, GlobalPost (Some cfg0), GlobalPost (Some cfg0)]
             initialScheduler))) = [1]
   \<and> snd (scheduleGlobalTask env0
          (db0\<lparr>configRows := [cfg0\<lparr>overrideIndividual := True\<rparr>]\<rparr>)
          (Some (cfg0\<lparr>overrideIndividual := True\<rparr>))
          (runSegments env0 db0
             [SitePre siteA, SitePre (siteA\<lparr>scheduleCron := Some ''0 6 * * *''\<rparr>),
              SitePost siteA, SitePost (siteA\<lparr>scheduleCron := Some ''0 6 * * *''\<rparr>)]
             initialScheduler)) = None
   \<and> enabled (cfg0\<lparr>overrideIndividual := True\<rparr>)
   \<and> overrideIndividual (cfg0\<lparr>overrideIndividual := True\<rparr>)
   \<and> liveSiteJobs ''a''
        (fst (scheduleGlobalTask env0
          (db0\<lparr>configRows := [cfg0\<lparr>overrideIndividual := True\<rparr>]\<rparr>)
          (Some (cfg0\<lparr>overrideIndividual := True\<rparr>))
          (runSegments env0 db0
             [SitePre siteA, SitePre (siteA\<lparr>scheduleCron := Some ''0 6 * * *''\<rparr>),
              SitePost siteA, SitePost (siteA\<lparr>scheduleCron := Some ''0 6 * * *''\<rparr>)]
             initialScheduler))) = [0]"
  by code_simp

section \<open>A rejected expression\<close>

text \<open>
  C9 fails on the code for \<^verbatim>\<open>onSiteUpdated\<close>. The site's expression is rejected by the
  cron library, so the promise of \<^verbatim>\<open>scheduleSite\<close> rejects and no job is installed; the
  caller of \<^verbatim>\<open>onSiteUpdated\<close> still gets a normal return. The awaited callers do see
  the error: \<^verbatim>\<open>scheduleGlobalTask\<close> over a store holding that site rejects with it.
\<close>

theorem rejected_expression_is_dropped:
  "\<not> cronValidate env0 ''every day''
   \<and> scheduleCron siteBad = Some ''every day''
   \<and> snd (scheduleSite env0 db0 siteBad initialScheduler) = Some (InvalidCron ''every day'')
   \<and> onSiteUpdated env0 db0 siteBad initialScheduler = (initialScheduler, None)
   \<and> snd (scheduleGlobalTask env0 (db0\<lparr>siteRows := [siteBad]\<rparr>) (Some cfg0) initialScheduler) =
       Some (InvalidCron ''every day'')"
  by code_simp

end
